theory Spec2Isabelle
  imports Complex_Main "HOL-Library.AList" "HOL-Library.Multiset"
begin

section \<open>JavaScript strings, numbers and values\<close>

text \<open>
  A JavaScript string is a sequence of UTF-16 code units; a code unit is modelled as a natural
  number, so that the separators U+2028 and U+2029 and the Unicode white space that the
  regular expressions of \<^verbatim>\<open>scripts/scrape.js\<close> mention can be written down. \<open>js\<close> turns an
  Isabelle string literal into such a string.
\<close>

type_synonym ustring = "nat list"

definition js :: "string \<Rightarrow> ustring" where
  "js s = map of_char s"

text \<open>
  A JavaScript number is a finite value, \<open>NaN\<close> or an infinity. Finite values are modelled by
  the exact rational they denote: the rounding of IEEE doubles to 53 bits, overflow to an
  infinity and the sign of zero are abstracted. Every finite value the scraper meets is the
  value of a decimal literal of the page or a sum of such values.
\<close>

datatype jsnum = Fin rat | NaN | PosInf | NegInf

text \<open>
  The values that \<^verbatim>\<open>JSON.parse\<close> and property access produce. An object is the list of its
  own properties in insertion order; \<open>Undefined\<close> is what reading an absent property gives.
\<close>

datatype jsval =
    Undefined
  | JNull
  | JBool bool
  | JNum jsnum
  | JStr ustring
  | JArr "jsval list"
  | JObj "(ustring \<times> jsval) list"

datatype js_error = TypeError

subsection \<open>Character classes\<close>

definition LBRACE :: nat where "LBRACE = 123"
definition RBRACE :: nat where "RBRACE = 125"
definition LBRACKET :: nat where "LBRACKET = 91"
definition RBRACKET :: nat where "RBRACKET = 93"
definition QUOTE :: nat where "QUOTE = 34"
definition BACKSLASH :: nat where "BACKSLASH = 92"
definition COMMA :: nat where "COMMA = 44"
definition COLON :: nat where "COLON = 58"
definition MINUS :: nat where "MINUS = 45"
definition PLUS :: nat where "PLUS = 43"
definition DOT :: nat where "DOT = 46"

text \<open>The class \<^verbatim>\<open>\d\<close> of a regular expression, and the decimal digits of every numeric grammar.\<close>

definition is_digit :: "nat \<Rightarrow> bool" where
  "is_digit c = (48 \<le> c \<and> c \<le> 57)"

text \<open>
  The class \<^verbatim>\<open>\s\<close>, which is also what \<^verbatim>\<open>String.prototype.trim\<close>, \<^verbatim>\<open>parseFloat\<close> and
  \<^verbatim>\<open>Number\<close> strip: the WhiteSpace and LineTerminator code points of ECMAScript.
\<close>

definition is_space :: "nat \<Rightarrow> bool" where
  "is_space c =
     (c = 9 \<or> c = 10 \<or> c = 11 \<or> c = 12 \<or> c = 13 \<or> c = 32 \<or> c = 160 \<or> c = 5760 \<or>
      (8192 \<le> c \<and> c \<le> 8202) \<or> c = 8232 \<or> c = 8233 \<or> c = 8239 \<or> c = 8287 \<or>
      c = 12288 \<or> c = 65279)"

text \<open>The four white space characters of the JSON grammar.\<close>

definition is_json_ws :: "nat \<Rightarrow> bool" where
  "is_json_ws c = (c = 9 \<or> c = 10 \<or> c = 13 \<or> c = 32)"

definition skip_ws :: "ustring \<Rightarrow> ustring" where
  "skip_ws s = dropWhile is_json_ws s"

definition digits_val :: "ustring \<Rightarrow> nat" where
  "digits_val ds = foldl (\<lambda>a c. 10 * a + (c - 48)) 0 ds"

text \<open>\<open>scale10 x e\<close> is \<open>x\<close> times ten to the power \<open>e\<close>.\<close>

definition scale10 :: "rat \<Rightarrow> int \<Rightarrow> rat" where
  "scale10 x e = (if 0 \<le> e then x * 10 ^ nat e else x / 10 ^ nat (- e))"

fun startsWith :: "ustring \<Rightarrow> ustring \<Rightarrow> bool" where
  "startsWith s [] = True"
| "startsWith [] (p # ps) = False"
| "startsWith (c # cs) (p # ps) = (c = p \<and> startsWith cs ps)"

subsection \<open>\<^verbatim>\<open>String.prototype.trim\<close>\<close>

definition trim :: "ustring \<Rightarrow> ustring" where
  "trim s = rev (dropWhile is_space (rev (dropWhile is_space s)))"

section \<open>\<^verbatim>\<open>JSON.parse\<close>\<close>

text \<open>
  The built-in strict parser, following the JSON grammar of ECMA-404 as ECMAScript applies it:
  no trailing commas, no comments, no leading zeros, strings in double quotes with the eight
  simple escapes and \<^verbatim>\<open>\uXXXX\<close>, control characters below U+0020 refused inside strings. A
  key that occurs twice keeps its first position and its last value. \<open>None\<close> is the
  \<^verbatim>\<open>SyntaxError\<close>.
\<close>

definition hex_val :: "nat \<Rightarrow> nat option" where
  "hex_val c =
     (if 48 \<le> c \<and> c \<le> 57 then Some (c - 48)
      else if 97 \<le> c \<and> c \<le> 102 then Some (c - 87)
      else if 65 \<le> c \<and> c \<le> 70 then Some (c - 55)
      else None)"

definition unescape :: "nat \<Rightarrow> nat option" where
  "unescape e =
     (if e = 34 then Some 34 else if e = 92 then Some 92 else if e = 47 then Some 47
      else if e = 98 then Some 8 else if e = 102 then Some 12 else if e = 110 then Some 10
      else if e = 114 then Some 13 else if e = 116 then Some 9 else None)"

definition cons_res :: "nat \<Rightarrow> (ustring \<times> ustring) option \<Rightarrow> (ustring \<times> ustring) option" where
  "cons_res c r = (case r of None \<Rightarrow> None | Some (str, rest) \<Rightarrow> Some (c # str, rest))"

text \<open>The characters of a string after its opening quote: the string's value and what follows
  the closing quote.\<close>

fun parse_chars :: "ustring \<Rightarrow> (ustring \<times> ustring) option" where
  "parse_chars [] = None"
| "parse_chars (c # cs) =
     (if c = QUOTE then Some ([], cs)
      else if c = BACKSLASH then
        (case cs of
           [] \<Rightarrow> None
         | e # r \<Rightarrow>
             if e = 117 then
               (case r of
                  h1 # h2 # h3 # h4 # r' \<Rightarrow>
                    (case (hex_val h1, hex_val h2, hex_val h3, hex_val h4) of
                       (Some a, Some b, Some c', Some d) \<Rightarrow>
                         cons_res (((a * 16 + b) * 16 + c') * 16 + d) (parse_chars r')
                     | _ \<Rightarrow> None)
                | _ \<Rightarrow> None)
             else
               (case unescape e of
                  Some v \<Rightarrow> cons_res v (parse_chars r)
                | None \<Rightarrow> None))
      else if c < 32 then None
      else cons_res c (parse_chars cs))"

text \<open>A JSON number: \<^verbatim>\<open>-? (0 | [1-9][0-9]*) (. [0-9]+)? ([eE] [+-]? [0-9]+)?\<close>.\<close>

definition json_exponent :: "ustring \<Rightarrow> (int \<times> ustring) option" where
  "json_exponent s =
     (case s of
        [] \<Rightarrow> Some (0, s)
      | c # cs \<Rightarrow>
          if c = 101 \<or> c = 69 then
            (let (neg, ds) =
                   (case cs of
                      [] \<Rightarrow> (False, cs)
                    | d # r \<Rightarrow> if d = MINUS then (True, r) else if d = PLUS then (False, r)
                               else (False, cs));
                 ex = takeWhile is_digit ds
             in if ex = [] then None
                else Some ((if neg then - int (digits_val ex) else int (digits_val ex)),
                           dropWhile is_digit ds))
          else Some (0, s))"

definition json_fraction :: "ustring \<Rightarrow> (ustring \<times> ustring) option" where
  "json_fraction s =
     (case s of
        [] \<Rightarrow> Some ([], s)
      | c # cs \<Rightarrow>
          if c = DOT then
            (let fp = takeWhile is_digit cs
             in if fp = [] then None else Some (fp, dropWhile is_digit cs))
          else Some ([], s))"

definition json_number :: "ustring \<Rightarrow> (jsnum \<times> ustring) option" where
  "json_number s =
     (let (neg, s1) = (case s of [] \<Rightarrow> (False, s)
                       | c # cs \<Rightarrow> if c = MINUS then (True, cs) else (False, s));
          (ip, s2) = (case s1 of [] \<Rightarrow> ([], s1)
                      | c # cs \<Rightarrow> if c = 48 then ([c], cs)
                                 else (takeWhile is_digit s1, dropWhile is_digit s1))
      in if ip = [] then None
         else
           (case json_fraction s2 of
              None \<Rightarrow> None
            | Some (fp, s3) \<Rightarrow>
                (case json_exponent s3 of
                   None \<Rightarrow> None
                 | Some (ex, s4) \<Rightarrow>
                     (let m = of_nat (digits_val (ip @ fp));
                          x = scale10 m (ex - int (length fp))
                      in Some (Fin (if neg then - x else x), s4)))))"

definition LIT_true :: ustring where "LIT_true = js ''true''"
definition LIT_false :: ustring where "LIT_false = js ''false''"
definition LIT_null :: ustring where "LIT_null = js ''null''"

text \<open>
  Values, the elements of an array after its first bracket and the members of an object
  after its first brace. The first argument bounds the number of nested calls; a text of
  \<open>n\<close> code units needs fewer than \<open>n + 1\<close> of them, which is what \<open>JSON_parse\<close> supplies.
\<close>

fun parse_value :: "nat \<Rightarrow> ustring \<Rightarrow> (jsval \<times> ustring) option"
and parse_elements :: "nat \<Rightarrow> jsval list \<Rightarrow> ustring \<Rightarrow> (jsval \<times> ustring) option"
and parse_members :: "nat \<Rightarrow> (ustring \<times> jsval) list \<Rightarrow> ustring \<Rightarrow> (jsval \<times> ustring) option"
where
  "parse_value 0 s = None"
| "parse_value (Suc n) s =
     (case s of
        [] \<Rightarrow> None
      | c # cs \<Rightarrow>
          if c = LBRACE then
            (case skip_ws cs of
               [] \<Rightarrow> None
             | d # ds \<Rightarrow> if d = RBRACE then Some (JObj [], ds) else parse_members n [] (d # ds))
          else if c = LBRACKET then
            (case skip_ws cs of
               [] \<Rightarrow> None
             | d # ds \<Rightarrow> if d = RBRACKET then Some (JArr [], ds) else parse_elements n [] (d # ds))
          else if c = QUOTE then
            (case parse_chars cs of
               None \<Rightarrow> None
             | Some (str, r) \<Rightarrow> Some (JStr str, r))
          else if startsWith s LIT_true then Some (JBool True, drop 4 s)
          else if startsWith s LIT_false then Some (JBool False, drop 5 s)
          else if startsWith s LIT_null then Some (JNull, drop 4 s)
          else
            (case json_number s of
               None \<Rightarrow> None
             | Some (x, r) \<Rightarrow> Some (JNum x, r)))"
| "parse_elements 0 acc s = None"
| "parse_elements (Suc n) acc s =
     (case parse_value n s of
        None \<Rightarrow> None
      | Some (v, r) \<Rightarrow>
          (case skip_ws r of
             [] \<Rightarrow> None
           | c # cs \<Rightarrow>
               if c = COMMA then parse_elements n (acc @ [v]) (skip_ws cs)
               else if c = RBRACKET then Some (JArr (acc @ [v]), cs)
               else None))"
| "parse_members 0 acc s = None"
| "parse_members (Suc n) acc s =
     (case s of
        [] \<Rightarrow> None
      | c # cs \<Rightarrow>
          if c \<noteq> QUOTE then None
          else
            (case parse_chars cs of
               None \<Rightarrow> None
             | Some (k, r) \<Rightarrow>
                 (case skip_ws r of
                    [] \<Rightarrow> None
                  | d # ds \<Rightarrow>
                      if d \<noteq> COLON then None
                      else
                        (case parse_value n (skip_ws ds) of
                           None \<Rightarrow> None
                         | Some (v, r2) \<Rightarrow>
                             (case skip_ws r2 of
                                [] \<Rightarrow> None
                              | e # es \<Rightarrow>
                                  if e = COMMA then
                                    parse_members n (AList.update k v acc) (skip_ws es)
                                  else if e = RBRACE then
                                    Some (JObj (AList.update k v acc), es)
                                  else None)))))"

definition JSON_parse :: "ustring \<Rightarrow> jsval option" where
  "JSON_parse s =
     (case parse_value (Suc (length s)) (skip_ws s) of
        None \<Rightarrow> None
      | Some (v, r) \<Rightarrow> if skip_ws r = [] then Some v else None)"

section \<open>The embedded-object extractor\<close>

text \<open>
  \<^verbatim>\<open>String.prototype.indexOf(pat, pos)\<close>: the least index not below \<open>pos\<close> (clamped to the
  length) at which \<open>pat\<close> occurs; \<open>None\<close> is the result \<open>-1\<close>.
\<close>

fun index_from :: "ustring \<Rightarrow> ustring \<Rightarrow> nat \<Rightarrow> nat option" where
  "index_from pat [] k = (if pat = [] then Some k else None)"
| "index_from pat (c # cs) k =
     (if startsWith (c # cs) pat then Some k else index_from pat cs (Suc k))"

definition indexOf :: "ustring \<Rightarrow> ustring \<Rightarrow> nat \<Rightarrow> nat option" where
  "indexOf s pat pos = (let i = min pos (length s) in index_from pat (drop i s) i)"

text \<open>\<^verbatim>\<open>html[i]\<close>: \<open>None\<close> is \<^verbatim>\<open>undefined\<close>, the value of an index out of range.\<close>

definition charAt :: "ustring \<Rightarrow> nat \<Rightarrow> nat option" where
  "charAt s i = (if i < length s then Some (s ! i) else None)"

text \<open>\<^verbatim>\<open>html.slice(a, b)\<close> for \<open>0 \<le> a\<close> and \<open>0 \<le> b\<close>.\<close>

definition slice :: "ustring \<Rightarrow> nat \<Rightarrow> nat \<Rightarrow> ustring" where
  "slice s a b = take (b - a) (drop a s)"

definition MARKER :: ustring where
  "MARKER = [34, 108, 111, 116, 95, 110, 117, 109, 98, 101, 114, 34]"

text \<open>\<^verbatim>\<open>while (start > 0 && html[start] !== "{") start--\<close>\<close>

fun scan_left :: "ustring \<Rightarrow> nat \<Rightarrow> nat" where
  "scan_left html 0 = 0"
| "scan_left html (Suc n) =
     (if charAt html (Suc n) \<noteq> Some LBRACE then scan_left html n else Suc n)"

text \<open>
  The \<^verbatim>\<open>for\<close> loop that counts braces, on the code units from index \<open>end\<close> on: \<open>Some end\<close> with
  the index of the brace that brings the depth back to zero (the loop's \<^verbatim>\<open>break\<close>), \<open>None\<close>
  when the loop runs off the string, which leaves \<^verbatim>\<open>end = html.length\<close>.
\<close>

fun match_forward :: "ustring \<Rightarrow> nat \<Rightarrow> int \<Rightarrow> nat option" where
  "match_forward [] end depth = None"
| "match_forward (ch # cs) end depth =
     (if ch = LBRACE then match_forward cs (Suc end) (depth + 1)
      else if ch = RBRACE then
        (if depth - 1 = 0 then Some end else match_forward cs (Suc end) (depth - 1))
      else match_forward cs (Suc end) depth)"

text \<open>The first \<^verbatim>\<open>replace\<close> of the cleanup: every U+2028 and U+2029 is removed.\<close>

definition strip_separators :: "ustring \<Rightarrow> ustring" where
  "strip_separators s = filter (\<lambda>c. c \<noteq> 8232 \<and> c \<noteq> 8233) s"

text \<open>
  \<^verbatim>\<open>.replace(/,\s*([\]}])/g, "$1")\<close>: a comma, any white space and a closing bracket or brace
  become the bracket or brace alone; the scan resumes after it.
\<close>

function strip_trailing_commas :: "ustring \<Rightarrow> ustring" where
  "strip_trailing_commas [] = []"
| "strip_trailing_commas (c # cs) =
     (if c = COMMA then
        (case dropWhile is_space cs of
           [] \<Rightarrow> c # strip_trailing_commas cs
         | d # ds \<Rightarrow>
             if d = RBRACKET \<or> d = RBRACE then d # strip_trailing_commas ds
             else c # strip_trailing_commas cs)
      else c # strip_trailing_commas cs)"
  by pat_completeness auto
termination
proof (relation "measure length")
  fix c :: nat and cs d ds
  assume "dropWhile is_space cs = d # ds"
  then have "length (d # ds) \<le> length cs"
    by (metis length_dropWhile_le)
  then show "(ds, c # cs) \<in> measure length" by simp
qed auto

text \<open>The body of the \<^verbatim>\<open>try\<close>: \<open>Some obj\<close> is pushed to the results, \<open>None\<close> is the
  \<^verbatim>\<open>catch\<close> that skips the candidate.\<close>

definition parse_candidate :: "ustring \<Rightarrow> jsval option" where
  "parse_candidate objText = JSON_parse (strip_trailing_commas (strip_separators objText))"

text \<open>
  The \<^verbatim>\<open>while (true)\<close> loop of \<^verbatim>\<open>extractLotObjects\<close>, with its variables \<open>idx\<close> and
  \<open>results\<close>. \<open>Some results\<close> is the \<^verbatim>\<open>break\<close>; the value \<open>None\<close> of the partial function is
  a loop that never ends.
\<close>

partial_function (option) extract_loop :: "ustring \<Rightarrow> nat \<Rightarrow> jsval list \<Rightarrow> jsval list option"
where
  "extract_loop html idx results =
     (case indexOf html MARKER idx of
        None \<Rightarrow> Some results
      | Some keyIdx \<Rightarrow>
          (let start = scan_left html keyIdx in
           if charAt html start \<noteq> Some LBRACE then extract_loop html (keyIdx + 12) results
           else
             (case match_forward (drop start html) start 0 of
                None \<Rightarrow> extract_loop html (length html + 1) results
              | Some end \<Rightarrow>
                  (case parse_candidate (slice html start (end + 1)) of
                     Some obj \<Rightarrow> extract_loop html (end + 1) (results @ [obj])
                   | None \<Rightarrow> extract_loop html (end + 1) results))))"

definition extractLotObjects :: "ustring \<Rightarrow> jsval list option" where
  "extractLotObjects html = extract_loop html 0 []"

section \<open>Conversions between strings and numbers\<close>

subsection \<open>\<^verbatim>\<open>parseFloat\<close> and \<^verbatim>\<open>Number\<close> on strings\<close>

definition LIT_Infinity :: ustring where "LIT_Infinity = js ''Infinity''"

text \<open>The optional exponent of a decimal literal: it is read only when it is complete.\<close>

definition float_exponent :: "ustring \<Rightarrow> int \<times> ustring" where
  "float_exponent s =
     (case s of
        [] \<Rightarrow> (0, s)
      | c # cs \<Rightarrow>
          if c = 101 \<or> c = 69 then
            (let (neg, ds) =
                   (case cs of
                      [] \<Rightarrow> (False, cs)
                    | d # r \<Rightarrow> if d = MINUS then (True, r) else if d = PLUS then (False, r)
                               else (False, cs));
                 ex = takeWhile is_digit ds
             in if ex = [] then (0, s)
                else ((if neg then - int (digits_val ex) else int (digits_val ex)),
                      dropWhile is_digit ds))
          else (0, s))"

text \<open>
  The longest prefix that is a \<^verbatim>\<open>StrDecimalLiteral\<close> (a sign, then \<^verbatim>\<open>Infinity\<close> or digits
  with an optional fraction and exponent): its value and the rest of the string. \<open>None\<close>
  when no prefix is one.
\<close>

definition str_decimal_prefix :: "ustring \<Rightarrow> (jsnum \<times> ustring) option" where
  "str_decimal_prefix s =
     (let (neg, s1) = (case s of [] \<Rightarrow> (False, s)
                       | c # cs \<Rightarrow> if c = MINUS then (True, cs)
                                  else if c = PLUS then (False, cs) else (False, s))
      in if startsWith s1 LIT_Infinity then Some (if neg then NegInf else PosInf, drop 8 s1)
         else
           (let ip = takeWhile is_digit s1;
                s2 = dropWhile is_digit s1;
                (fp, s3) = (case s2 of [] \<Rightarrow> ([], s2)
                            | c # cs \<Rightarrow> if c = DOT
                                       then (takeWhile is_digit cs, dropWhile is_digit cs)
                                       else ([], s2))
            in if ip = [] \<and> fp = [] then None
               else
                 (let (ex, s4) = float_exponent s3;
                      x = scale10 (of_nat (digits_val (ip @ fp))) (ex - int (length fp))
                  in Some (Fin (if neg then - x else x), s4))))"

definition parseFloat :: "ustring \<Rightarrow> jsnum" where
  "parseFloat s =
     (case str_decimal_prefix (dropWhile is_space s) of
        None \<Rightarrow> NaN
      | Some (x, rest) \<Rightarrow> x)"

text \<open>The literals \<^verbatim>\<open>0x\<close>, \<^verbatim>\<open>0o\<close> and \<^verbatim>\<open>0b\<close> that \<^verbatim>\<open>Number\<close> accepts besides decimals.\<close>

definition radix_val :: "nat \<Rightarrow> ustring \<Rightarrow> nat option" where
  "radix_val r ds =
     (if ds \<noteq> [] \<and> list_all (\<lambda>c. case hex_val c of None \<Rightarrow> False | Some v \<Rightarrow> v < r) ds
      then Some (foldl (\<lambda>a c. r * a + (case hex_val c of None \<Rightarrow> 0 | Some v \<Rightarrow> v)) 0 ds)
      else None)"

definition nondecimal_literal :: "ustring \<Rightarrow> nat option" where
  "nondecimal_literal t =
     (case t of
        z # x # ds \<Rightarrow>
          if z \<noteq> 48 then None
          else if x = 120 \<or> x = 88 then radix_val 16 ds
          else if x = 111 \<or> x = 79 then radix_val 8 ds
          else if x = 98 \<or> x = 66 then radix_val 2 ds
          else None
      | _ \<Rightarrow> None)"

text \<open>\<^verbatim>\<open>Number(s)\<close> for a string \<open>s\<close>.\<close>

definition Number_of_string :: "ustring \<Rightarrow> jsnum" where
  "Number_of_string s =
     (let t = trim s in
      if t = [] then Fin 0
      else
        (case nondecimal_literal t of
           Some n \<Rightarrow> Fin (of_nat n)
         | None \<Rightarrow>
             (case str_decimal_prefix t of
                None \<Rightarrow> NaN
              | Some (x, rest) \<Rightarrow> if rest = [] then x else NaN)))"

subsection \<open>\<^verbatim>\<open>String\<close> on numbers and values\<close>

function digits_of :: "nat \<Rightarrow> ustring" where
  "digits_of n = (if n < 10 then [48 + n] else digits_of (n div 10) @ [48 + n mod 10])"
  by pat_completeness auto
termination
  by (relation "measure id") auto

declare digits_of.simps [simp del]

function trailing_zeros :: "nat \<Rightarrow> nat" where
  "trailing_zeros n = (if n = 0 \<or> n mod 10 \<noteq> 0 then 0 else Suc (trailing_zeros (n div 10)))"
  by pat_completeness auto
termination
  by (relation "measure id") auto

declare trailing_zeros.simps [simp del]

text \<open>The number of decimal places of a positive finite decimal; the first argument bounds
  the search, and the denominator of the value is always enough.\<close>

fun frac_places :: "nat \<Rightarrow> rat \<Rightarrow> nat" where
  "frac_places 0 x = 0"
| "frac_places (Suc k) x = (if x = of_int \<lfloor>x\<rfloor> then 0 else Suc (frac_places k (x * 10)))"

text \<open>
  \<^verbatim>\<open>Number::toString\<close> in radix ten, for a positive value \<open>s * 10 ^ (n - k)\<close> whose \<open>k\<close>
  digits \<open>s\<close> do not end with a zero.
\<close>

definition positive_to_string :: "rat \<Rightarrow> ustring" where
  "positive_to_string x =
     (let f = frac_places (nat (snd (quotient_of x))) x;
          s' = nat \<lfloor>x * 10 ^ f\<rfloor>;
          z = trailing_zeros s';
          ds = digits_of (s' div 10 ^ z);
          k = length ds;
          n = int k + int z - int f
      in if int k \<le> n \<and> n \<le> 21 then ds @ replicate (nat (n - int k)) 48
         else if 0 < n \<and> n \<le> 21 then take (nat n) ds @ [DOT] @ drop (nat n) ds
         else if - 6 < n \<and> n \<le> 0 then [48, DOT] @ replicate (nat (- n)) 48 @ ds
         else
           (let e = n - 1;
                ex = [101, (if e < 0 then MINUS else PLUS)] @ digits_of (nat \<bar>e\<bar>)
            in if k = 1 then ds @ ex else take 1 ds @ [DOT] @ drop 1 ds @ ex))"

definition Number_toString :: "jsnum \<Rightarrow> ustring" where
  "Number_toString n =
     (case n of
        NaN \<Rightarrow> js ''NaN''
      | PosInf \<Rightarrow> js ''Infinity''
      | NegInf \<Rightarrow> js ''-Infinity''
      | Fin x \<Rightarrow>
          if x = 0 then [48]
          else if x < 0 then MINUS # positive_to_string (- x)
          else positive_to_string x)"

text \<open>
  \<^verbatim>\<open>String(v)\<close>. An array is joined with commas, \<^verbatim>\<open>null\<close> and \<^verbatim>\<open>undefined\<close> elements
  giving the empty string. A parsed object is \<^verbatim>\<open>[object Object]\<close>, unless it has an own
  property \<^verbatim>\<open>toString\<close>: that one is no function, the inherited \<^verbatim>\<open>valueOf\<close> returns the
  object itself, and the conversion throws a \<^verbatim>\<open>TypeError\<close>.
\<close>

fun ToString :: "jsval \<Rightarrow> js_error + ustring"
and join_elems :: "jsval list \<Rightarrow> js_error + ustring"
where
  "ToString Undefined = Inr (js ''undefined'')"
| "ToString JNull = Inr (js ''null'')"
| "ToString (JBool b) = Inr (if b then js ''true'' else js ''false'')"
| "ToString (JNum n) = Inr (Number_toString n)"
| "ToString (JStr s) = Inr s"
| "ToString (JArr xs) = join_elems xs"
| "ToString (JObj kvs) =
     (if map_of kvs (js ''toString'') \<noteq> None then Inl TypeError
      else Inr (js ''[object Object]''))"
| "join_elems [] = Inr []"
| "join_elems (x # xs) =
     (case (if x = Undefined \<or> x = JNull then Inr [] else ToString x) of
        Inl e \<Rightarrow> Inl e
      | Inr s \<Rightarrow>
          if xs = [] then Inr s
          else (case join_elems xs of Inl e \<Rightarrow> Inl e | Inr r \<Rightarrow> Inr (s @ [COMMA] @ r)))"

section \<open>Reading a parsed lot record\<close>

text \<open>
  \<^verbatim>\<open>v?.k\<close> for the property names the script reads. None of them exists on a prototype, so
  the result is the own property of an object and \<^verbatim>\<open>undefined\<close> for everything else.
\<close>

fun get_prop :: "jsval \<Rightarrow> ustring \<Rightarrow> jsval" where
  "get_prop (JObj kvs) k = (case map_of kvs k of None \<Rightarrow> Undefined | Some v \<Rightarrow> v)"
| "get_prop v k = Undefined"

fun truthy :: "jsval \<Rightarrow> bool" where
  "truthy Undefined = False"
| "truthy JNull = False"
| "truthy (JBool b) = b"
| "truthy (JNum n) = (n \<noteq> NaN \<and> n \<noteq> Fin 0)"
| "truthy (JStr s) = (s \<noteq> [])"
| "truthy (JArr xs) = True"
| "truthy (JObj kvs) = True"

text \<open>\<^verbatim>\<open>a || b\<close>\<close>

definition js_or :: "jsval \<Rightarrow> jsval \<Rightarrow> jsval" where
  "js_or a b = (if truthy a then a else b)"

text \<open>\<^verbatim>\<open>toNumber\<close>: \<open>None\<close> is \<^verbatim>\<open>null\<close>, \<open>Some x\<close> a finite number.\<close>

fun toNumber :: "jsval \<Rightarrow> rat option" where
  "toNumber Undefined = None"
| "toNumber JNull = None"
| "toNumber (JNum n) = (case n of Fin x \<Rightarrow> Some x | _ \<Rightarrow> None)"
| "toNumber (JStr x) =
     (case parseFloat (filter (\<lambda>c. c \<noteq> COMMA) x) of Fin n \<Rightarrow> Some n | _ \<Rightarrow> None)"
| "toNumber v = None"

text \<open>
  \<^verbatim>\<open>bidCountTxt.match(/(\d+)\s*bids?/)\<close>: the first group of the leftmost match. The group
  is greedy and what follows it is no digit, so it is the whole run of digits from where the
  match starts.
\<close>

definition LIT_bid :: ustring where "LIT_bid = js ''bid''"

fun match_bid_count :: "ustring \<Rightarrow> ustring option" where
  "match_bid_count [] = None"
| "match_bid_count (c # cs) =
     (if is_digit c \<and> startsWith (dropWhile is_space (dropWhile is_digit cs)) LIT_bid
      then Some (c # takeWhile is_digit cs)
      else match_bid_count cs)"

text \<open>
  The bid count of \<^verbatim>\<open>pickBidForLot\<close>. A truthy \<^verbatim>\<open>bid_count_txt\<close> that is no string has no
  method \<^verbatim>\<open>match\<close>, and the call throws.
\<close>

definition bid_count_of :: "jsval \<Rightarrow> js_error + nat" where
  "bid_count_of bidCountTxt =
     (if truthy bidCountTxt then
        (case bidCountTxt of
           JStr t \<Rightarrow> (case match_bid_count t of
                        Some g \<Rightarrow> Inr (digits_val g)
                      | None \<Rightarrow> Inr 0)
         | _ \<Rightarrow> Inl TypeError)
      else Inr 0)"

record bids =
  current_bid :: "rat option"
  next_bid :: "rat option"
  currency_text :: jsval
  bid_count :: nat
  has_no_bids :: bool

definition pickBidForLot :: "jsval \<Rightarrow> js_error + bids" where
  "pickBidForLot lotObj =
     (let currentBid = toNumber (get_prop lotObj (js ''current_bid''));
          nextBid = toNumber (get_prop (get_prop lotObj (js ''online_only_dynamic_lot_data''))
                                   (js ''next_bid''));
          currencyText =
            js_or (js_or (js_or (get_prop lotObj (js ''current_bid_txt''))
                                (get_prop (get_prop lotObj (js ''online_only_dynamic_lot_data''))
                                      (js ''next_bid_text'')))
                         (get_prop (get_prop lotObj (js ''online_only_static_lot_data''))
                               (js ''header_price'')))
                  JNull
      in case bid_count_of (get_prop lotObj (js ''bid_count_txt'')) of
           Inl e \<Rightarrow> Inl e
         | Inr bidCount \<Rightarrow>
             (let hasNoBids = (get_prop lotObj (js ''has_no_bids'') = JBool True \<or> bidCount = 0)
              in Inr \<lparr> bids.current_bid = (if hasNoBids then Some 0 else currentBid),
                       bids.next_bid = nextBid,
                       bids.currency_text = currencyText,
                       bids.bid_count = bidCount,
                       bids.has_no_bids = hasNoBids \<rparr>))"

section \<open>The aggregation of \<^verbatim>\<open>main\<close>\<close>

definition TARGET_LOTS :: "ustring list" where
  "TARGET_LOTS =
     map js [''5'', ''18'', ''20'', ''28'', ''45'', ''69'', ''75'', ''79'', ''86'', ''87'',
             ''105'', ''106'', ''117'', ''118'', ''140'', ''141'', ''144'', ''145'', ''146'',
             ''158'']"

text \<open>\<^verbatim>\<open>String(lot?.lot_number || "").trim()\<close>\<close>

definition lot_key :: "jsval \<Rightarrow> js_error + ustring" where
  "lot_key lot =
     (case ToString (js_or (get_prop lot (js ''lot_number'')) (JStr [])) of
        Inl e \<Rightarrow> Inl e
      | Inr str \<Rightarrow> Inr (trim str))"

text \<open>The loop that fills \<^verbatim>\<open>lotMap\<close>: a key that the map has already is left alone.\<close>

fun build_lotMap :: "(ustring \<rightharpoonup> jsval) \<Rightarrow> jsval list \<Rightarrow> js_error + (ustring \<rightharpoonup> jsval)" where
  "build_lotMap lotMap [] = Inr lotMap"
| "build_lotMap lotMap (lot # allLots) =
     (case lot_key lot of
        Inl e \<Rightarrow> Inl e
      | Inr lotNum \<Rightarrow>
          build_lotMap (if lotMap lotNum = None then lotMap(lotNum \<mapsto> lot) else lotMap) allLots)"

record entry =
  lot :: jsnum
  current_bid :: "rat option"
  next_bid :: "rat option"
  shown_amount :: "rat option"
  status :: jsval
  estimate :: jsval
  bid_text :: jsval
  bid_count :: nat
  has_no_bids :: bool

definition placeholder :: "jsnum \<Rightarrow> entry" where
  "placeholder n =
     \<lparr> lot = n, current_bid = None, next_bid = None, shown_amount = None, status = JNull,
       estimate = JNull, bid_text = JNull, bid_count = 0, has_no_bids = True \<rparr>"

text \<open>One round of the loop over \<^verbatim>\<open>TARGET_LOTS\<close>: the entry that is pushed for \<open>lotNum\<close>.\<close>

definition build_entry :: "(ustring \<rightharpoonup> jsval) \<Rightarrow> ustring \<Rightarrow> js_error + entry" where
  "build_entry lotMap lotNum =
     (case lotMap lotNum of
        None \<Rightarrow> Inr (placeholder (Number_of_string lotNum))
      | Some lotObj \<Rightarrow>
          if \<not> truthy lotObj then Inr (placeholder (Number_of_string lotNum))
          else
            (case pickBidForLot lotObj of
               Inl e \<Rightarrow> Inl e
             | Inr bids \<Rightarrow>
                 (let chosen = (if bids.current_bid bids \<noteq> None then bids.current_bid bids
                                else if bids.next_bid bids \<noteq> None then bids.next_bid bids
                                else None)
                  in Inr \<lparr> lot = Number_of_string lotNum,
                           current_bid = bids.current_bid bids,
                           next_bid = bids.next_bid bids,
                           shown_amount = chosen,
                           status = js_or (get_prop (get_prop lotObj (js ''online_only_dynamic_lot_data''))
                                                    (js ''item_status'')) JNull,
                           estimate = js_or (get_prop (get_prop lotObj (js ''online_only_static_lot_data''))
                                                      (js ''header_price'')) JNull,
                           bid_text = js_or (bids.currency_text bids) JNull,
                           bid_count = bids.bid_count bids,
                           has_no_bids = bids.has_no_bids bids \<rparr>)))"

fun build_entries :: "(ustring \<rightharpoonup> jsval) \<Rightarrow> ustring list \<Rightarrow> entry list \<Rightarrow> js_error + entry list"
where
  "build_entries lotMap [] entries = Inr entries"
| "build_entries lotMap (lotNum # targets) entries =
     (case build_entry lotMap lotNum of
        Inl e \<Rightarrow> Inl e
      | Inr en \<Rightarrow> build_entries lotMap targets (entries @ [en]))"

text \<open>\<^verbatim>\<open>a === b\<close> on numbers: \<^verbatim>\<open>NaN\<close> equals nothing.\<close>

definition strict_eq :: "jsnum \<Rightarrow> jsnum \<Rightarrow> bool" where
  "strict_eq a b = (a \<noteq> NaN \<and> a = b)"

text \<open>The second loop over \<^verbatim>\<open>TARGET_LOTS\<close>, which pushes a placeholder for a lot number that
  \<^verbatim>\<open>entries.find\<close> does not find.\<close>

fun ensure_present :: "ustring list \<Rightarrow> entry list \<Rightarrow> entry list" where
  "ensure_present [] entries = entries"
| "ensure_present (t # targets) entries =
     (let n = Number_of_string t in
      if find (\<lambda>e. strict_eq (lot e) n) entries = None
      then ensure_present targets (entries @ [placeholder n])
      else ensure_present targets entries)"

text \<open>\<^verbatim>\<open>a - b\<close> on numbers.\<close>

fun num_sub :: "jsnum \<Rightarrow> jsnum \<Rightarrow> jsnum" where
  "num_sub (Fin a) (Fin b) = Fin (a - b)"
| "num_sub NaN b = NaN"
| "num_sub a NaN = NaN"
| "num_sub PosInf PosInf = NaN"
| "num_sub NegInf NegInf = NaN"
| "num_sub PosInf b = PosInf"
| "num_sub NegInf b = NegInf"
| "num_sub (Fin a) PosInf = NegInf"
| "num_sub (Fin a) NegInf = PosInf"

text \<open>
  \<^verbatim>\<open>xs.sort((a, b) => key(a) - key(b))\<close>. The sort of ECMAScript is stable, and a comparator
  result of \<^verbatim>\<open>NaN\<close> counts as zero; for keys without \<^verbatim>\<open>NaN\<close> the comparator is consistent
  and the result is the one below in every implementation. \<open>comes_after key a b\<close> says that the
  comparator is positive on \<open>a\<close> and \<open>b\<close>.
\<close>

definition comes_after :: "('a \<Rightarrow> jsnum) \<Rightarrow> 'a \<Rightarrow> 'a \<Rightarrow> bool" where
  "comes_after key a b =
     (case num_sub (key a) (key b) of Fin d \<Rightarrow> 0 < d | PosInf \<Rightarrow> True | _ \<Rightarrow> False)"

fun insert_by :: "('a \<Rightarrow> jsnum) \<Rightarrow> 'a \<Rightarrow> 'a list \<Rightarrow> 'a list" where
  "insert_by key x [] = [x]"
| "insert_by key x (y # ys) =
     (if comes_after key x y then y # insert_by key x ys else x # y # ys)"

definition sort_by :: "('a \<Rightarrow> jsnum) \<Rightarrow> 'a list \<Rightarrow> 'a list" where
  "sort_by key xs = foldr (insert_by key) xs []"

text \<open>The \<^verbatim>\<open>reduce\<close> that computes \<^verbatim>\<open>total\<close>; a shown amount that is no number is \<^verbatim>\<open>null\<close>.\<close>

definition total_of :: "entry list \<Rightarrow> rat" where
  "total_of entries =
     foldl (\<lambda>s e. if has_no_bids e then s
                   else s + (case shown_amount e of Some x \<Rightarrow> x | None \<Rightarrow> 0))
           0 entries"

text \<open>The object written to \<^verbatim>\<open>out/data.json\<close>, without the time stamp, the URL and the
  closing time, which come from the clock and the environment.\<close>

record report =
  lots_requested :: "jsnum list"
  total :: rat
  lots_with_bids :: nat
  lots_without_bids :: nat
  entries :: "entry list"

text \<open>What \<^verbatim>\<open>main\<close> does with the extracted objects \<open>allLots\<close>, for the requested lots
  \<open>targets\<close> in their order of insertion.\<close>

definition aggregate :: "ustring list \<Rightarrow> jsval list \<Rightarrow> js_error + report" where
  "aggregate targets allLots =
     (case build_lotMap Map.empty allLots of
        Inl e \<Rightarrow> Inl e
      | Inr lotMap \<Rightarrow>
          (case build_entries lotMap targets [] of
             Inl e \<Rightarrow> Inl e
           | Inr es \<Rightarrow>
               (let sorted_entries = sort_by lot (ensure_present targets es)
                in Inr \<lparr> lots_requested = sort_by (\<lambda>n. n) (map Number_of_string targets),
                         total = total_of sorted_entries,
                         lots_with_bids = length (filter (\<lambda>e. \<not> has_no_bids e) sorted_entries),
                         lots_without_bids = length (filter (\<lambda>e. has_no_bids e) sorted_entries),
                         entries = sorted_entries \<rparr>)))"

text \<open>
  \<^verbatim>\<open>main\<close> from the page content on: \<open>None\<close> when the extractor never returns, \<open>Some (Inl e)\<close>
  when an exception ends the run before anything is written, \<open>Some (Inr r)\<close> with the report
  written.
\<close>

definition main :: "ustring \<Rightarrow> (js_error + report) option" where
  "main html =
     (case extractLotObjects html of
        None \<Rightarrow> None
      | Some allLots \<Rightarrow> Some (aggregate TARGET_LOTS allLots))"

section \<open>Example pages\<close>

text \<open>A lot record in which a nested object stands before the lot number.\<close>

definition page_nested :: ustring where
  \<open>page_nested = js ''{"a":{},"lot_number":"5"}''\<close>

text \<open>The lot record of the example of the specification, and the entry built from it.\<close>

definition lot_example :: jsval where
  "lot_example =
     JObj [(js ''lot_number'', JStr (js ''5'')), (js ''current_bid'', JStr (js ''1400.00'')),
           (js ''bid_count_txt'', JStr (js '' - 3 bids''))]"

definition entry_example :: entry where
  "entry_example =
     \<lparr> lot = Fin 5, current_bid = Some 1400, next_bid = None, shown_amount = Some 1400,
       status = JNull, estimate = JNull, bid_text = JNull, bid_count = 3, has_no_bids = False \<rparr>"

text \<open>A record with a current bid of 1,400.00 and a bid count of zero, and its entry.\<close>

definition lot_no_bids :: jsval where
  "lot_no_bids =
     JObj [(js ''lot_number'', JStr (js ''5'')), (js ''current_bid'', JStr (js ''1,400.00'')),
           (js ''bid_count_txt'', JStr (js '' - 0 bids''))]"

definition entry_no_bids :: entry where
  "entry_no_bids =
     \<lparr> lot = Fin 5, current_bid = Some 0, next_bid = None, shown_amount = Some 0,
       status = JNull, estimate = JNull, bid_text = JNull, bid_count = 0, has_no_bids = True \<rparr>"

text \<open>The report for the requested lots 18 and 5 when only \<open>lot_example\<close> is on the page.\<close>

definition report_small :: report where
  "report_small =
     \<lparr> lots_requested = [Fin 5, Fin 18], total = 1400, lots_with_bids = 1,
       lots_without_bids = 1, entries = [entry_example, placeholder (Fin 18)] \<rparr>"

text \<open>A record without a current bid and without a bid count.\<close>

definition lot_absent_bid :: jsval where
  "lot_absent_bid = JObj [(js ''lot_number'', JStr (js ''5''))]"

text \<open>The page of the example of the specification, and the report for it.\<close>

definition page_example :: ustring where
  \<open>page_example =
     js ''{"lot_number":"5","current_bid":"1400.00","bid_count_txt":" - 3 bids"}''\<close>

definition report_example :: report where
  "report_example =
     \<lparr> lots_requested =
         map Fin [5, 18, 20, 28, 45, 69, 75, 79, 86, 87, 105, 106, 117, 118, 140, 141, 144,
                  145, 146, 158],
       total = 1400, lots_with_bids = 1, lots_without_bids = 19,
       entries =
         entry_example #
         map (\<lambda>n. placeholder (Fin n))
           [18, 20, 28, 45, 69, 75, 79, 86, 87, 105, 106, 117, 118, 140, 141, 144, 145, 146,
            158] \<rparr>"


text \<open>
  Two malformed candidates, one whose braces never balance and one whose braces balance
  around text that is no JSON, and a valid object with the marker that is put after them.
\<close>

definition candidate_unbalanced :: ustring where
  \<open>candidate_unbalanced = js ''{"lot_number":"1" ''\<close>

definition candidate_invalid :: ustring where
  \<open>candidate_invalid = js ''{"lot_number":x} ''\<close>

definition text_invalid :: ustring where
  \<open>text_invalid = js ''{"lot_number":x}''\<close>

definition object_two :: ustring where
  \<open>object_two = js ''{"lot_number":"2"}''\<close>

definition lot_two :: jsval where
  "lot_two = JObj [(js ''lot_number'', JStr (js ''2''))]"

section \<open>The extractor, step by step\<close>

lemmas char_defs = LBRACE_def RBRACE_def LBRACKET_def RBRACKET_def QUOTE_def BACKSLASH_def
  COMMA_def COLON_def MINUS_def PLUS_def DOT_def

text \<open>The definitions that the evaluation of a concrete lot record unfolds.\<close>

lemmas eval_defs = js_def char_defs is_digit_def is_space_def digits_val_def scale10_def
  LIT_Infinity_def LIT_bid_def float_exponent_def str_decimal_prefix_def parseFloat_def
  trim_def nondecimal_literal_def Number_of_string_def js_or_def bid_count_of_def
  pickBidForLot_def build_entry_def placeholder_def lot_key_def strict_eq_def
  comes_after_def sort_by_def total_of_def aggregate_def

text \<open>One round of the loop, by the branch it takes.\<close>

lemma extract_loop_break:
  "indexOf html MARKER idx = None \<Longrightarrow> extract_loop html idx results = Some results"
  by (subst extract_loop.simps) simp

lemma extract_loop_no_brace:
  "indexOf html MARKER idx = Some keyIdx \<Longrightarrow>
   charAt html (scan_left html keyIdx) \<noteq> Some LBRACE \<Longrightarrow>
   extract_loop html idx results = extract_loop html (keyIdx + 12) results"
  by (subst extract_loop.simps) simp

lemma extract_loop_unbalanced:
  "indexOf html MARKER idx = Some keyIdx \<Longrightarrow>
   charAt html (scan_left html keyIdx) = Some LBRACE \<Longrightarrow>
   match_forward (drop (scan_left html keyIdx) html) (scan_left html keyIdx) 0 = None \<Longrightarrow>
   extract_loop html idx results = extract_loop html (length html + 1) results"
  by (subst extract_loop.simps) simp

lemma extract_loop_push:
  "indexOf html MARKER idx = Some keyIdx \<Longrightarrow>
   charAt html (scan_left html keyIdx) = Some LBRACE \<Longrightarrow>
   match_forward (drop (scan_left html keyIdx) html) (scan_left html keyIdx) 0 = Some e \<Longrightarrow>
   parse_candidate (slice html (scan_left html keyIdx) (e + 1)) = Some obj \<Longrightarrow>
   extract_loop html idx results = extract_loop html (e + 1) (results @ [obj])"
  by (subst extract_loop.simps) simp

lemma extract_loop_skip:
  "indexOf html MARKER idx = Some keyIdx \<Longrightarrow>
   charAt html (scan_left html keyIdx) = Some LBRACE \<Longrightarrow>
   match_forward (drop (scan_left html keyIdx) html) (scan_left html keyIdx) 0 = Some e \<Longrightarrow>
   parse_candidate (slice html (scan_left html keyIdx) (e + 1)) = None \<Longrightarrow>
   extract_loop html idx results = extract_loop html (e + 1) results"
  by (subst extract_loop.simps) simp

section \<open>A page on which the extractor never returns\<close>

text \<open>
  On \<open>page_nested\<close> the marker is found at index 8. The scan to the left stops at the brace
  of the nested object at index 5, whose closing brace is at index 6; the object \<^verbatim>\<open>{}\<close> is
  pushed and the cursor becomes 7, which is before the marker. The next round finds the same
  marker and does the same.
\<close>

lemma nested_index0: "indexOf page_nested MARKER 0 = Some 8"
  by code_simp

lemma nested_index7: "indexOf page_nested MARKER 7 = Some 8"
  by code_simp

lemma nested_scan: "scan_left page_nested 8 = 5"
  by code_simp

lemma nested_brace: "charAt page_nested 5 = Some LBRACE"
  by code_simp

lemma nested_match: "match_forward (drop 5 page_nested) 5 0 = Some 6"
  by code_simp

lemma nested_parse: "parse_candidate (slice page_nested 5 7) = Some (JObj [])"
  by code_simp

lemma nested_step0:
  "extract_loop page_nested 0 rs = extract_loop page_nested 7 (rs @ [JObj []])"
  using extract_loop_push [of page_nested 0 8 6 "JObj []" rs]
  by (simp add: nested_index0 nested_scan nested_brace nested_match nested_parse)

lemma nested_stuck:
  assumes "extract_loop html idx rs = Some out"
  shows "\<not> (html = page_nested \<and> idx = 7)"
proof (rule extract_loop.raw_induct
    [where P = "\<lambda>h i r y. \<not> (h = page_nested \<and> i = 7)", OF _ assms], goal_cases)
  case (1 loop h i r y)
  show ?case
  proof
    assume a: "h = page_nested \<and> i = 7"
    with 1(2) have "loop page_nested 7 (r @ [JObj []]) = Some y"
      by (simp add: nested_index7 nested_scan nested_brace nested_match nested_parse)
    from 1(1) [OF this] show False by simp
  qed
qed

text \<open>
  Claim C8 says that the extractor terminates on every HTML string, because each round moves
  the cursor past the region it consumed. On the page \<^verbatim>\<open>{"a":{},"lot_number":"5"}\<close> it does
  not: \<open>extractLotObjects\<close> has no result there.
\<close>

theorem extractLotObjects_diverges: "extractLotObjects page_nested = None"
proof (cases "extractLotObjects page_nested")
  case None
  then show ?thesis .
next
  case (Some out)
  then have "extract_loop page_nested 7 [JObj []] = Some out"
    using nested_step0 [of "[]"] by (simp add: extractLotObjects_def)
  then show ?thesis using nested_stuck by blast
qed

section \<open>The total of the report\<close>

lemma foldl_total:
  "foldl (\<lambda>s e. if has_no_bids e then s
                   else s + (case shown_amount e of Some x \<Rightarrow> x | None \<Rightarrow> 0)) a es =
   a + (\<Sum>e\<leftarrow>filter (\<lambda>e. \<not> has_no_bids e) es.
          case shown_amount e of Some x \<Rightarrow> x | None \<Rightarrow> 0)"
  by (induction es arbitrary: a) (simp_all add: add.assoc)

lemma total_of_sum:
  "total_of es =
   (\<Sum>e\<leftarrow>filter (\<lambda>e. \<not> has_no_bids e) es.
      case shown_amount e of Some x \<Rightarrow> x | None \<Rightarrow> 0)"
  by (simp add: total_of_def foldl_total)

lemma aggregate_total:
  "aggregate targets allLots = Inr rep \<Longrightarrow> total rep = total_of (entries rep)"
  by (auto simp: aggregate_def Let_def split: sum.splits)

lemma aggregate_small: "aggregate [js ''18'', js ''5''] [lot_example] = Inr report_small"
  by (simp add: lot_example_def entry_example_def report_small_def eval_defs)

text \<open>
  Claim C1: the field \<open>total\<close> of the report is the \<^verbatim>\<open>reduce\<close> over the entries of the
  report; for every list of entries that is the sum of \<open>shown_amount\<close> over the entries whose
  \<open>has_no_bids\<close> is false, a \<open>shown_amount\<close> that is no number counting as zero; and an entry
  whose \<open>has_no_bids\<close> is true adds nothing, whatever its \<open>shown_amount\<close>.
\<close>

theorem report_total:
  "(aggregate targets allLots = Inr rep \<longrightarrow> total rep = total_of (entries rep)) \<and>
   total_of es =
     (\<Sum>e\<leftarrow>filter (\<lambda>e. \<not> has_no_bids e) es.
        case shown_amount e of Some x \<Rightarrow> x | None \<Rightarrow> 0) \<and>
   (has_no_bids e \<longrightarrow> total_of (xs @ e # ys) = total_of (xs @ ys))"
  using aggregate_total [of targets allLots rep]
  by (simp add: total_of_sum)

theorem report_total_witness:
  "aggregate [js ''18'', js ''5''] [lot_example] = Inr report_small \<and>
   total report_small = total_of (entries report_small) \<and>
   total report_small = 1400 \<and>
   has_no_bids (entry_no_bids\<lparr>shown_amount := Some 7\<rparr>) \<and>
   total_of ([entry_example] @ entry_no_bids\<lparr>shown_amount := Some 7\<rparr> # [placeholder (Fin 18)]) =
     total_of ([entry_example] @ [placeholder (Fin 18)])"
proof -
  have flag: "has_no_bids (entry_no_bids\<lparr>shown_amount := Some 7\<rparr>)"
    by (simp add: entry_no_bids_def)
  show ?thesis
    using report_total [of "[js ''18'', js ''5'']" "[lot_example]" report_small "[]"
        "entry_no_bids\<lparr>shown_amount := Some 7\<rparr>" "[entry_example]" "[placeholder (Fin 18)]"]
      aggregate_small flag
    by (simp add: report_small_def)
qed

section \<open>The entry of a lot that is on the page\<close>

lemma example_entry: "build_entry [js ''5'' \<mapsto> lot_example] (js ''5'') = Inr entry_example"
  by (simp add: lot_example_def entry_example_def eval_defs)

lemma example_no_bids: "build_entry [js ''5'' \<mapsto> lot_no_bids] (js ''5'') = Inr entry_no_bids"
  by (simp add: lot_no_bids_def entry_no_bids_def eval_defs)

lemma bid_count_of_zero_text: "bid_count_of (JStr (js '' - 0 bids'')) = Inr 0"
  by (simp add: eval_defs)

lemma bid_count_of_Undefined: "bid_count_of Undefined = Inr 0"
  by (simp add: bid_count_of_def)

lemma build_entry_found:
  assumes "lotMap lotNum = Some lotObj" and "truthy lotObj"
  shows "build_entry lotMap lotNum =
     (case pickBidForLot lotObj of
        Inl err \<Rightarrow> Inl err
      | Inr b \<Rightarrow>
          Inr \<lparr> lot = Number_of_string lotNum,
                current_bid = bids.current_bid b,
                next_bid = bids.next_bid b,
                shown_amount = (if bids.current_bid b \<noteq> None then bids.current_bid b
                                else bids.next_bid b),
                status = js_or (get_prop (get_prop lotObj (js ''online_only_dynamic_lot_data''))
                                         (js ''item_status'')) JNull,
                estimate = js_or (get_prop (get_prop lotObj (js ''online_only_static_lot_data''))
                                           (js ''header_price'')) JNull,
                bid_text = js_or (bids.currency_text b) JNull,
                bid_count = bids.bid_count b,
                has_no_bids = bids.has_no_bids b \<rparr>)"
  using assms by (simp add: build_entry_def Let_def split: sum.splits)

lemma pickBidForLot_Inr:
  assumes "pickBidForLot lotObj = Inr b"
  shows "bid_count_of (get_prop lotObj (js ''bid_count_txt'')) = Inr (bids.bid_count b)"
    and "bids.has_no_bids b =
           (get_prop lotObj (js ''has_no_bids'') = JBool True \<or> bids.bid_count b = 0)"
    and "bids.current_bid b =
           (if bids.has_no_bids b then Some 0 else toNumber (get_prop lotObj (js ''current_bid'')))"
    and "bids.next_bid b =
           toNumber (get_prop (get_prop lotObj (js ''online_only_dynamic_lot_data''))
                              (js ''next_bid''))"
  using assms by (auto simp: pickBidForLot_def Let_def split: sum.splits)

lemma pickBidForLot_ok:
  assumes "bid_count_of (get_prop lotObj (js ''bid_count_txt'')) = Inr n"
  shows "\<exists>b. pickBidForLot lotObj = Inr b"
  using assms by (simp add: pickBidForLot_def Let_def)

text \<open>
  Claim C7: for a lot record that is on the page, the entry's \<open>has_no_bids\<close> is true exactly
  when the record's own \<open>has_no_bids\<close> is \<^verbatim>\<open>true\<close> or the bid count parsed from
  \<open>bid_count_txt\<close> is zero. In particular a \<open>bid_count_txt\<close> that is missing or is
  \<^verbatim>\<open>" - 0 bids"\<close> gives an entry with \<open>has_no_bids\<close> true, whatever the record's
  \<open>current_bid\<close> is.
\<close>

theorem entry_has_no_bids_iff:
  assumes "lotMap lotNum = Some lotObj" and "truthy lotObj"
  shows "(\<forall>e. build_entry lotMap lotNum = Inr e \<longrightarrow>
            bid_count_of (get_prop lotObj (js ''bid_count_txt'')) = Inr (bid_count e) \<and>
            has_no_bids e =
              (get_prop lotObj (js ''has_no_bids'') = JBool True \<or> bid_count e = 0)) \<and>
         (get_prop lotObj (js ''bid_count_txt'') = Undefined \<or>
          get_prop lotObj (js ''bid_count_txt'') = JStr (js '' - 0 bids'') \<longrightarrow>
            (\<exists>e. build_entry lotMap lotNum = Inr e \<and> has_no_bids e))"
proof (intro conjI allI impI)
  fix e
  assume e: "build_entry lotMap lotNum = Inr e"
  then obtain b where b: "pickBidForLot lotObj = Inr b"
    and cnt: "bid_count e = bids.bid_count b" and flag: "has_no_bids e = bids.has_no_bids b"
    using build_entry_found [of lotMap lotNum lotObj, OF assms] by (auto split: sum.splits)
  show "bid_count_of (get_prop lotObj (js ''bid_count_txt'')) = Inr (bid_count e)"
    using pickBidForLot_Inr(1) [OF b] cnt by simp
  show "has_no_bids e = (get_prop lotObj (js ''has_no_bids'') = JBool True \<or> bid_count e = 0)"
    using pickBidForLot_Inr(2) [OF b] cnt flag by simp
next
  assume "get_prop lotObj (js ''bid_count_txt'') = Undefined \<or>
          get_prop lotObj (js ''bid_count_txt'') = JStr (js '' - 0 bids'')"
  then have zero: "bid_count_of (get_prop lotObj (js ''bid_count_txt'')) = Inr 0"
    using bid_count_of_zero_text bid_count_of_Undefined by auto
  then obtain b where b: "pickBidForLot lotObj = Inr b"
    using pickBidForLot_ok by blast
  have "bids.bid_count b = 0"
    using pickBidForLot_Inr(1) [OF b] zero by simp
  then have "bids.has_no_bids b"
    using pickBidForLot_Inr(2) [OF b] by simp
  then show "\<exists>e. build_entry lotMap lotNum = Inr e \<and> has_no_bids e"
    using build_entry_found [of lotMap lotNum lotObj, OF assms] b by simp
qed

theorem entry_has_no_bids_iff_witness:
  "[js ''5'' \<mapsto> lot_no_bids] (js ''5'') = Some lot_no_bids \<and> truthy lot_no_bids \<and>
   build_entry [js ''5'' \<mapsto> lot_no_bids] (js ''5'') = Inr entry_no_bids \<and>
   get_prop lot_no_bids (js ''bid_count_txt'') = JStr (js '' - 0 bids'') \<and>
   toNumber (get_prop lot_no_bids (js ''current_bid'')) = Some 1400 \<and>
   bid_count_of (get_prop lot_no_bids (js ''bid_count_txt'')) = Inr (bid_count entry_no_bids) \<and>
   has_no_bids entry_no_bids =
     (get_prop lot_no_bids (js ''has_no_bids'') = JBool True \<or> bid_count entry_no_bids = 0) \<and>
   (\<exists>e. build_entry [js ''5'' \<mapsto> lot_no_bids] (js ''5'') = Inr e \<and> has_no_bids e)"
proof -
  have found: "[js ''5'' \<mapsto> lot_no_bids] (js ''5'') = Some lot_no_bids"
    by simp
  have obj: "truthy lot_no_bids"
    by (simp add: lot_no_bids_def)
  have count_text: "get_prop lot_no_bids (js ''bid_count_txt'') = JStr (js '' - 0 bids'')"
    by (simp add: lot_no_bids_def js_def)
  have bid: "toNumber (get_prop lot_no_bids (js ''current_bid'')) = Some 1400"
    by (simp add: lot_no_bids_def eval_defs)
  show ?thesis
    using entry_has_no_bids_iff [of "[js ''5'' \<mapsto> lot_no_bids]" "js ''5''" lot_no_bids, OF found obj]
      example_no_bids count_text bid found obj
    by auto
qed

lemma build_entry_Inr:
  assumes "lotMap lotNum = Some lotObj" and "truthy lotObj" and "build_entry lotMap lotNum = Inr e"
  obtains b where "pickBidForLot lotObj = Inr b"
    and "lot e = Number_of_string lotNum"
    and "current_bid e = bids.current_bid b"
    and "next_bid e = bids.next_bid b"
    and "shown_amount e = (if bids.current_bid b \<noteq> None then bids.current_bid b else bids.next_bid b)"
    and "bid_count e = bids.bid_count b"
    and "has_no_bids e = bids.has_no_bids b"
  using assms build_entry_found [of lotMap lotNum lotObj]
  by (auto split: sum.splits)

text \<open>
  Claim C10: for a requested lot that is on the page and whose \<open>has_no_bids\<close> comes out
  true, the entry's \<open>current_bid\<close> and \<open>shown_amount\<close> are both the number 0: not
  \<^verbatim>\<open>null\<close>, and not the parsed current bid of the record.
\<close>

theorem no_bids_entry_shows_zero:
  assumes "lotMap lotNum = Some lotObj" and "truthy lotObj"
    and "build_entry lotMap lotNum = Inr e" and "has_no_bids e"
  shows "current_bid e = Some 0 \<and> shown_amount e = Some 0"
proof -
  obtain b where b: "pickBidForLot lotObj = Inr b"
    and cur: "current_bid e = bids.current_bid b"
    and shown: "shown_amount e = (if bids.current_bid b \<noteq> None then bids.current_bid b else bids.next_bid b)"
    and flag: "has_no_bids e = bids.has_no_bids b"
    using build_entry_Inr [of lotMap lotNum lotObj e] assms(1-3) by metis
  have "bids.current_bid b = Some 0"
    using pickBidForLot_Inr(3) [OF b] flag assms(4) by simp
  then show ?thesis using cur shown by simp
qed

theorem no_bids_entry_shows_zero_witness:
  "[js ''5'' \<mapsto> lot_no_bids] (js ''5'') = Some lot_no_bids \<and> truthy lot_no_bids \<and>
   build_entry [js ''5'' \<mapsto> lot_no_bids] (js ''5'') = Inr entry_no_bids \<and>
   has_no_bids entry_no_bids \<and>
   current_bid entry_no_bids = Some 0 \<and> shown_amount entry_no_bids = Some 0"
proof -
  have found: "[js ''5'' \<mapsto> lot_no_bids] (js ''5'') = Some lot_no_bids"
    by simp
  have obj: "truthy lot_no_bids"
    by (simp add: lot_no_bids_def)
  have flag: "has_no_bids entry_no_bids"
    by (simp add: entry_no_bids_def)
  show ?thesis
    using no_bids_entry_shows_zero [of "[js ''5'' \<mapsto> lot_no_bids]" "js ''5''" lot_no_bids
        entry_no_bids, OF found obj example_no_bids flag] found obj example_no_bids flag
    by simp
qed

lemma toNumber_Some_iff:
  "toNumber v = Some x \<longleftrightarrow>
     (v = JNum (Fin x) \<or> (\<exists>s. v = JStr s \<and> parseFloat (filter (\<lambda>c. c \<noteq> COMMA) s) = Fin x))"
  by (cases v) (auto split: jsnum.splits)

text \<open>
  Claim C6 says that the entry's \<open>current_bid\<close> is the numeric parse of the record's
  \<open>current_bid\<close> and \<^verbatim>\<open>null\<close> exactly when that field is absent or no finite number. It is
  not for a record whose \<open>has_no_bids\<close> comes out true: a record with the current bid
  1,400.00 and zero bids, and a record without the field, both get the current bid 0.
\<close>

theorem current_bid_not_always_parse:
  "build_entry [js ''5'' \<mapsto> lot_no_bids] (js ''5'') = Inr entry_no_bids \<and>
   toNumber (get_prop lot_no_bids (js ''current_bid'')) = Some 1400 \<and>
   current_bid entry_no_bids \<noteq> toNumber (get_prop lot_no_bids (js ''current_bid'')) \<and>
   build_entry [js ''5'' \<mapsto> lot_absent_bid] (js ''5'') = Inr entry_no_bids \<and>
   get_prop lot_absent_bid (js ''current_bid'') = Undefined \<and>
   current_bid entry_no_bids \<noteq> None"
proof -
  have "toNumber (get_prop lot_no_bids (js ''current_bid'')) = Some 1400"
    by (simp add: lot_no_bids_def eval_defs)
  moreover have "build_entry [js ''5'' \<mapsto> lot_absent_bid] (js ''5'') = Inr entry_no_bids"
    by (simp add: lot_absent_bid_def entry_no_bids_def eval_defs)
  moreover have "get_prop lot_absent_bid (js ''current_bid'') = Undefined"
    by (simp add: lot_absent_bid_def js_def)
  moreover have "current_bid entry_no_bids = Some 0"
    by (simp add: entry_no_bids_def)
  ultimately show ?thesis
    using example_no_bids by simp
qed

text \<open>
  Claim C6 as amended: the entry's \<open>current_bid\<close> is 0 when its \<open>has_no_bids\<close> is true, and
  otherwise the result of \<open>toNumber\<close> on the record's \<open>current_bid\<close>; that result is the
  finite number \<open>x\<close> exactly when the field is the finite number \<open>x\<close> or a string that
  \<^verbatim>\<open>parseFloat\<close> reads as \<open>x\<close> once its commas are removed, and \<^verbatim>\<open>null\<close> in every other
  case, an absent field among them.
\<close>

theorem entry_current_bid:
  assumes "lotMap lotNum = Some lotObj" and "truthy lotObj"
    and "build_entry lotMap lotNum = Inr e"
  shows "current_bid e =
           (if has_no_bids e then Some 0 else toNumber (get_prop lotObj (js ''current_bid''))) \<and>
         (\<forall>x. toNumber (get_prop lotObj (js ''current_bid'')) = Some x \<longleftrightarrow>
                get_prop lotObj (js ''current_bid'') = JNum (Fin x) \<or>
                (\<exists>s. get_prop lotObj (js ''current_bid'') = JStr s \<and>
                     parseFloat (filter (\<lambda>c. c \<noteq> COMMA) s) = Fin x)) \<and>
         (get_prop lotObj (js ''current_bid'') = Undefined \<longrightarrow>
            toNumber (get_prop lotObj (js ''current_bid'')) = None)"
proof -
  obtain b where b: "pickBidForLot lotObj = Inr b"
    and cur: "current_bid e = bids.current_bid b"
    and flag: "has_no_bids e = bids.has_no_bids b"
    using build_entry_Inr [of lotMap lotNum lotObj e] assms by metis
  show ?thesis
    using pickBidForLot_Inr(3) [OF b] cur flag toNumber_Some_iff by simp
qed

theorem entry_current_bid_witness:
  "[js ''5'' \<mapsto> lot_example] (js ''5'') = Some lot_example \<and> truthy lot_example \<and>
   build_entry [js ''5'' \<mapsto> lot_example] (js ''5'') = Inr entry_example \<and>
   \<not> has_no_bids entry_example \<and>
   current_bid entry_example = toNumber (get_prop lot_example (js ''current_bid'')) \<and>
   current_bid entry_example = Some 1400"
proof -
  have found: "[js ''5'' \<mapsto> lot_example] (js ''5'') = Some lot_example"
    by simp
  have obj: "truthy lot_example"
    by (simp add: lot_example_def)
  have flag: "\<not> has_no_bids entry_example" and cur: "current_bid entry_example = Some 1400"
    by (simp_all add: entry_example_def)
  show ?thesis
    using entry_current_bid [of "[js ''5'' \<mapsto> lot_example]" "js ''5''" lot_example
        entry_example, OF found obj example_entry] found obj example_entry flag cur
    by simp
qed


section \<open>The deduplicated map\<close>

lemma js_error_TypeError: "(e :: js_error) = TypeError"
  by (cases e) simp

lemma find_append_cases:
  "find P (xs @ ys) = (case find P xs of Some x \<Rightarrow> Some x | None \<Rightarrow> find P ys)"
  by (induction xs) simp_all

lemma build_lotMap_eq:
  "build_lotMap m lots =
     (if list_ex (\<lambda>l. isl (lot_key l)) lots then Inl TypeError
      else Inr (\<lambda>k. case m k of Some v \<Rightarrow> Some v
                     | None \<Rightarrow> find (\<lambda>l. lot_key l = Inr k) lots))"
proof (induction lots arbitrary: m)
  case Nil
  have "m = (\<lambda>k. case m k of Some v \<Rightarrow> Some v
                  | None \<Rightarrow> find (\<lambda>l. lot_key l = Inr k) [])"
    by (rule ext) (simp split: option.splits)
  then show ?case by simp
next
  case (Cons l lots)
  show ?case
  proof (cases "lot_key l")
    case (Inl e)
    then show ?thesis by (simp add: js_error_TypeError)
  next
    case (Inr lotNum)
    let ?m1 = "if m lotNum = None then m(lotNum \<mapsto> l) else m"
    have step: "build_lotMap m (l # lots) = build_lotMap ?m1 lots"
      using Inr by simp
    have maps: "(\<lambda>k. case ?m1 k of Some v \<Rightarrow> Some v
                      | None \<Rightarrow> find (\<lambda>l. lot_key l = Inr k) lots) =
                (\<lambda>k. case m k of Some v \<Rightarrow> Some v
                      | None \<Rightarrow> find (\<lambda>l. lot_key l = Inr k) (l # lots))"
      using Inr by (intro ext) (auto split: option.splits)
    show ?thesis
      unfolding step Cons.IH [of ?m1] maps using Inr by simp
  qed
qed

lemma build_lotMap_lookup:
  assumes "build_lotMap Map.empty allLots = Inr lotMap"
  shows "lotMap k = find (\<lambda>l. lot_key l = Inr k) allLots"
  using assms unfolding build_lotMap_eq by (auto split: if_splits)

lemma find_drop_later_duplicate:
  assumes "lot_key b = lot_key a"
  shows "find (\<lambda>l. lot_key l = Inr k) (xs @ a # ys @ b # zs) =
         find (\<lambda>l. lot_key l = Inr k) (xs @ a # ys @ zs)"
  using assms by (simp add: find_append_cases split: option.splits)

lemma build_lotMap_drop_later_duplicate:
  assumes "lot_key b = lot_key a"
  shows "build_lotMap m (xs @ a # ys @ b # zs) = build_lotMap m (xs @ a # ys @ zs)"
proof -
  have errs: "list_ex (\<lambda>l. isl (lot_key l)) (xs @ a # ys @ b # zs) =
        list_ex (\<lambda>l. isl (lot_key l)) (xs @ a # ys @ zs)"
    using assms by (auto simp: list_ex_iff)
  have maps: "(\<lambda>k. case m k of Some v \<Rightarrow> Some v
                     | None \<Rightarrow> find (\<lambda>l. lot_key l = Inr k) (xs @ a # ys @ b # zs)) =
              (\<lambda>k. case m k of Some v \<Rightarrow> Some v
                     | None \<Rightarrow> find (\<lambda>l. lot_key l = Inr k) (xs @ a # ys @ zs))"
    by (simp only: find_drop_later_duplicate [OF assms])
  show ?thesis
    unfolding build_lotMap_eq errs maps ..
qed

lemma build_entry_cong:
  "lotMap lotNum = lotMap' lotNum \<Longrightarrow> build_entry lotMap lotNum = build_entry lotMap' lotNum"
  by (simp add: build_entry_def)

lemma dedup_example:
  "build_lotMap Map.empty [lot_example, lot_no_bids] = Inr [js ''5'' \<mapsto> lot_example]"
  by (simp add: lot_example_def lot_no_bids_def eval_defs)

text \<open>
  Claim C4: the deduplication by lot identifier is first-wins. The map built from the
  extracted objects gives, for every key, the first object in extraction order that has
  this key, and the entry of a lot is built from that object alone; a later object whose key
  an earlier one has already can be removed without any change to the outcome.
\<close>

theorem dedup_first_wins:
  "(build_lotMap Map.empty allLots = Inr lotMap \<longrightarrow>
      lotMap k = find (\<lambda>l. lot_key l = Inr k) allLots \<and>
      (\<forall>first. find (\<lambda>l. lot_key l = Inr k) allLots = Some first \<longrightarrow>
         build_entry lotMap k = build_entry [k \<mapsto> first] k)) \<and>
   (lot_key b = lot_key a \<longrightarrow>
      aggregate targets (xs @ a # ys @ b # zs) = aggregate targets (xs @ a # ys @ zs))"
proof (intro conjI impI allI)
  assume m: "build_lotMap Map.empty allLots = Inr lotMap"
  show look: "lotMap k = find (\<lambda>l. lot_key l = Inr k) allLots"
    using build_lotMap_lookup [OF m] .
  fix first
  assume "find (\<lambda>l. lot_key l = Inr k) allLots = Some first"
  then show "build_entry lotMap k = build_entry [k \<mapsto> first] k"
    using look by (intro build_entry_cong) simp
next
  assume "lot_key b = lot_key a"
  then show "aggregate targets (xs @ a # ys @ b # zs) = aggregate targets (xs @ a # ys @ zs)"
    by (simp add: aggregate_def build_lotMap_drop_later_duplicate)
qed

theorem dedup_first_wins_witness:
  "build_lotMap Map.empty [lot_example, lot_no_bids] = Inr [js ''5'' \<mapsto> lot_example] \<and>
   lot_key lot_no_bids = lot_key lot_example \<and>
   find (\<lambda>l. lot_key l = Inr (js ''5'')) [lot_example, lot_no_bids] = Some lot_example \<and>
   [js ''5'' \<mapsto> lot_example] (js ''5'') = Some lot_example \<and>
   aggregate [js ''18'', js ''5''] ([] @ lot_example # [] @ lot_no_bids # []) =
     aggregate [js ''18'', js ''5''] ([] @ lot_example # [] @ []) \<and>
   aggregate [js ''18'', js ''5''] [lot_example, lot_no_bids] = Inr report_small"
proof -
  have keys: "lot_key lot_no_bids = lot_key lot_example"
    by (simp add: lot_example_def lot_no_bids_def eval_defs)
  have key5: "lot_key lot_example = Inr (js ''5'')"
    by (simp add: lot_example_def eval_defs)
  show ?thesis
    using dedup_first_wins [of "[lot_example, lot_no_bids]" "[js ''5'' \<mapsto> lot_example]"
        "js ''5''" lot_no_bids lot_example "[js ''18'', js ''5'']" "[]" "[]" "[]"]
      dedup_example keys key5 aggregate_small
    by simp
qed


section \<open>The loops over the requested lots\<close>

lemma build_entry_lot:
  "build_entry lotMap lotNum = Inr e \<Longrightarrow> lot e = Number_of_string lotNum"
  by (auto simp: build_entry_def placeholder_def Let_def split: option.splits if_splits sum.splits)

lemma build_entry_absent:
  "lotMap lotNum = None \<Longrightarrow> build_entry lotMap lotNum = Inr (placeholder (Number_of_string lotNum))"
  by (simp add: build_entry_def)

lemma build_entries_Inr:
  "build_entries lotMap ts acc = Inr es \<Longrightarrow>
   \<exists>new. es = acc @ new \<and> list_all2 (\<lambda>t e. build_entry lotMap t = Inr e) ts new"
proof (induction ts arbitrary: acc)
  case Nil
  then show ?case by simp
next
  case (Cons t ts)
  from Cons.prems obtain en where en: "build_entry lotMap t = Inr en"
    and rest: "build_entries lotMap ts (acc @ [en]) = Inr es"
    by (auto split: sum.splits)
  from Cons.IH [OF rest] obtain new where
    "es = (acc @ [en]) @ new" "list_all2 (\<lambda>t e. build_entry lotMap t = Inr e) ts new"
    by blast
  then have "es = acc @ (en # new) \<and> list_all2 (\<lambda>t e. build_entry lotMap t = Inr e) (t # ts) (en # new)"
    using en by simp
  then show ?case by blast
qed

lemma set_ensure_present: "set es \<subseteq> set (ensure_present ts es)"
proof (induction ts arbitrary: es)
  case Nil
  then show ?case by simp
next
  case (Cons t ts)
  show ?case
    using Cons.IH [of es] Cons.IH [of "es @ [placeholder (Number_of_string t)]"]
    by (auto simp: Let_def)
qed

lemma ensure_present_id:
  "list_all (\<lambda>t. \<exists>e \<in> set es. strict_eq (lot e) (Number_of_string t)) ts \<Longrightarrow>
   ensure_present ts es = es"
  by (induction ts) (auto simp: Let_def find_None_iff)

section \<open>The sort of the entries\<close>

lemma mset_insert_by: "mset (insert_by key x ys) = add_mset x (mset ys)"
  by (induction ys) simp_all

lemma mset_sort_by: "mset (sort_by key xs) = mset xs"
  by (induction xs) (simp_all add: sort_by_def mset_insert_by)

lemma set_sort_by: "set (sort_by key xs) = set xs"
  using mset_sort_by [of key xs] by (metis set_mset_mset)

lemma comes_after_Fin: "key a = Fin x \<Longrightarrow> key b = Fin y \<Longrightarrow> comes_after key a b = (y < x)"
  by (simp add: comes_after_def)

lemma sorted_insert_by:
  assumes "sorted_wrt (\<lambda>a b. \<exists>x y. key a = Fin x \<and> key b = Fin y \<and> x \<le> y) ys"
    and "\<exists>r. key x = Fin r" and "list_all (\<lambda>y. \<exists>r. key y = Fin r) ys"
  shows "sorted_wrt (\<lambda>a b. \<exists>x y. key a = Fin x \<and> key b = Fin y \<and> x \<le> y) (insert_by key x ys)"
  using assms
proof (induction ys)
  case Nil
  then show ?case by simp
next
  case (Cons y ys)
  from Cons.prems obtain r s where r: "key x = Fin r" and s: "key y = Fin s"
    by auto
  show ?case
  proof (cases "comes_after key x y")
    case True
    then have "s < r" using comes_after_Fin [of key x r y s, OF r s] by simp
    moreover have "sorted_wrt (\<lambda>a b. \<exists>x y. key a = Fin x \<and> key b = Fin y \<and> x \<le> y) (insert_by key x ys)"
      using Cons by simp
    moreover have "set (insert_by key x ys) = insert x (set ys)"
      using mset_insert_by [of key x ys] by (metis set_mset_mset set_mset_add_mset_insert)
    ultimately show ?thesis
      using True Cons.prems r s by auto
  next
    case False
    then have le: "r \<le> s" using comes_after_Fin [of key x r y s, OF r s] by simp
    have "\<forall>z \<in> set ys. \<exists>a b. key x = Fin a \<and> key z = Fin b \<and> a \<le> b"
    proof
      fix z assume z: "z \<in> set ys"
      with Cons.prems(1) obtain c d where "key y = Fin c" "key z = Fin d" "c \<le> d"
        by auto
      with s le r show "\<exists>a b. key x = Fin a \<and> key z = Fin b \<and> a \<le> b"
        by auto
    qed
    then show ?thesis
      using False Cons.prems r s le by auto
  qed
qed

lemma sorted_sort_by:
  "list_all (\<lambda>y. \<exists>r. key y = Fin r) xs \<Longrightarrow>
   sorted_wrt (\<lambda>a b. \<exists>x y. key a = Fin x \<and> key b = Fin y \<and> x \<le> y) (sort_by key xs)"
proof (induction xs)
  case Nil
  then show ?case by (simp add: sort_by_def)
next
  case (Cons x xs)
  have all: "list_all (\<lambda>y. \<exists>r. key y = Fin r) (sort_by key xs)"
    using Cons.prems set_sort_by [of key xs] by (simp add: list_all_iff)
  have "sort_by key (x # xs) = insert_by key x (sort_by key xs)"
    by (simp add: sort_by_def)
  then show ?case
    using sorted_insert_by [of key "sort_by key xs" x] Cons all by simp
qed

lemma sort_by_sorted_id:
  "sorted_wrt (\<lambda>a b. \<not> comes_after key a b) xs \<Longrightarrow> sort_by key xs = xs"
proof (induction xs)
  case Nil
  then show ?case by (simp add: sort_by_def)
next
  case (Cons x xs)
  then have "sort_by key (x # xs) = insert_by key x xs"
    by (simp add: sort_by_def)
  then show ?case using Cons.prems by (cases xs) simp_all
qed

section \<open>The entries of the report\<close>

lemma list_all2_member:
  "list_all2 P xs ys \<Longrightarrow> x \<in> set xs \<Longrightarrow> \<exists>y \<in> set ys. P x y"
  by (induction rule: list_all2_induct) auto

lemma aggregate_Inr:
  assumes "aggregate targets allLots = Inr rep"
  obtains lotMap es where "build_lotMap Map.empty allLots = Inr lotMap"
    and "build_entries lotMap targets [] = Inr es"
    and "entries rep = sort_by lot (ensure_present targets es)"
  using assms by (auto simp: aggregate_def Let_def split: sum.splits)

lemma aggregate_entries:
  assumes "aggregate targets allLots = Inr rep"
    and "list_all (\<lambda>t. \<exists>x. Number_of_string t = Fin x) targets"
  obtains lotMap es where "build_lotMap Map.empty allLots = Inr lotMap"
    and "list_all2 (\<lambda>t e. build_entry lotMap t = Inr e) targets es"
    and "entries rep = sort_by lot es"
proof -
  obtain lotMap es where m: "build_lotMap Map.empty allLots = Inr lotMap"
    and b: "build_entries lotMap targets [] = Inr es"
    and r: "entries rep = sort_by lot (ensure_present targets es)"
    using aggregate_Inr [OF assms(1)] by blast
  from build_entries_Inr [OF b]
  have pairs: "list_all2 (\<lambda>t e. build_entry lotMap t = Inr e) targets es"
    by simp
  have "list_all (\<lambda>t. \<exists>e \<in> set es. strict_eq (lot e) (Number_of_string t)) targets"
    unfolding list_all_iff
  proof
    fix t assume t: "t \<in> set targets"
    with pairs obtain e where e: "e \<in> set es" "build_entry lotMap t = Inr e"
      using list_all2_member by force
    from t assms(2) obtain x where "Number_of_string t = Fin x"
      by (auto simp: list_all_iff)
    then have "strict_eq (lot e) (Number_of_string t)"
      using build_entry_lot [OF e(2)] by (simp add: strict_eq_def)
    with e(1) show "\<exists>e \<in> set es. strict_eq (lot e) (Number_of_string t)" by blast
  qed
  then have "ensure_present targets es = es"
    by (rule ensure_present_id)
  with m pairs r show thesis using that by simp
qed


section \<open>The example of the specification\<close>

lemma TARGET_LOTS_numbers:
  "map Number_of_string TARGET_LOTS =
   map Fin [5, 18, 20, 28, 45, 69, 75, 79, 86, 87, 105, 106, 117, 118, 140, 141, 144, 145,
            146, 158]"
  by (simp add: TARGET_LOTS_def eval_defs)

lemma TARGET_LOTS_numeric: "list_all (\<lambda>t. \<exists>x. Number_of_string t = Fin x) TARGET_LOTS"
proof -
  have "list_all (\<lambda>n. \<exists>x. n = Fin x) (map Number_of_string TARGET_LOTS)"
    unfolding TARGET_LOTS_numbers by simp
  then show ?thesis by (simp add: list_all_iff)
qed

lemma aggregate_example: "aggregate TARGET_LOTS [lot_example] = Inr report_example"
  by (simp add: TARGET_LOTS_def lot_example_def entry_example_def report_example_def eval_defs)

lemma example_index: "indexOf page_example MARKER 0 = Some 1"
  by code_simp

lemma example_scan: "scan_left page_example 1 = 0"
  by code_simp

lemma example_brace: "charAt page_example 0 = Some LBRACE"
  by code_simp

lemma example_match: "match_forward (drop 0 page_example) 0 0 = Some 69"
  by code_simp

lemma example_cleanup:
  "strip_trailing_commas (strip_separators (slice page_example 0 70)) = page_example"
  by (simp add: slice_def page_example_def strip_separators_def js_def char_defs is_space_def)

lemma example_JSON: "JSON_parse page_example = Some lot_example"
  by code_simp

lemma example_parse: "parse_candidate (slice page_example 0 (69 + 1)) = Some lot_example"
  by (simp add: parse_candidate_def example_cleanup example_JSON)

lemma example_end: "indexOf page_example MARKER (69 + 1) = None"
  by code_simp

lemma extract_example: "extractLotObjects page_example = Some [lot_example]"
proof -
  have "extract_loop page_example 0 [] = extract_loop page_example (69 + 1) ([] @ [lot_example])"
    using extract_loop_push [of page_example 0 1 69 lot_example "[]", unfolded example_scan,
        OF example_index example_brace example_match example_parse] .
  also have "\<dots> = Some [lot_example]"
    using extract_loop_break [OF example_end] by simp
  finally show ?thesis by (simp add: extractLotObjects_def)
qed

lemma main_example: "main page_example = Some (Inr report_example)"
  by (simp add: main_def extract_example aggregate_example)


lemma comes_after_key: "comes_after key a b = comes_after (\<lambda>n. n) (key a) (key b)"
  by (simp add: comes_after_def)

lemma sorted_wrt_comes_after_map:
  "sorted_wrt (\<lambda>a b. \<not> comes_after key a b) xs =
   sorted_wrt (\<lambda>m n. \<not> comes_after (\<lambda>n. n) m n) (map key xs)"
  by (simp only: sorted_wrt_map comes_after_key [of key])

lemma list_all2_lot:
  "list_all2 (\<lambda>t e. build_entry lotMap t = Inr e) ts es \<Longrightarrow>
   list_all2 (\<lambda>t e. lot e = Number_of_string t) ts es"
  by (erule list_all2_mono) (rule build_entry_lot)

lemma list_all2_map_lot:
  "list_all2 (\<lambda>t e. lot e = Number_of_string t) ts es \<Longrightarrow> map lot es = map Number_of_string ts"
  by (induction rule: list_all2_induct) simp_all

lemma TARGET_LOTS_sorted:
  "sorted_wrt (\<lambda>m n. \<not> comes_after (\<lambda>n. n) m n) (map Number_of_string TARGET_LOTS)"
  unfolding TARGET_LOTS_numbers by (simp add: comes_after_def)

text \<open>
  Claim C2: the entries of the written report are exactly one entry per requested lot
  identifier, sorted ascending by the numeric lot id. For requested identifiers that
  \<^verbatim>\<open>Number\<close> turns into finite numbers, the entries are, up to their order, a list that pairs
  with the identifiers one by one, each entry carrying the number of its identifier, and
  they are ascending by that number. For the set \<^verbatim>\<open>TARGET_LOTS\<close> of the script and every page
  for which a report is written, the lot ids of the entries are 5, 18, ..., 158 in this order.
\<close>

theorem entries_one_per_lot_sorted:
  "(aggregate targets allLots = Inr rep \<and>
    list_all (\<lambda>t. \<exists>x. Number_of_string t = Fin x) targets \<longrightarrow>
      (\<exists>es. list_all2 (\<lambda>t e. lot e = Number_of_string t) targets es \<and>
            mset (entries rep) = mset es) \<and>
      sorted_wrt (\<lambda>a b. \<exists>x y. lot a = Fin x \<and> lot b = Fin y \<and> x \<le> y) (entries rep)) \<and>
   (main html = Some (Inr rep') \<longrightarrow>
      map lot (entries rep') =
        map Fin [5, 18, 20, 28, 45, 69, 75, 79, 86, 87, 105, 106, 117, 118, 140, 141, 144,
                 145, 146, 158])"
proof (intro conjI impI)
  assume a: "aggregate targets allLots = Inr rep \<and>
    list_all (\<lambda>t. \<exists>x. Number_of_string t = Fin x) targets"
  then obtain lotMap es where
    pairs: "list_all2 (\<lambda>t e. build_entry lotMap t = Inr e) targets es"
    and r: "entries rep = sort_by lot es"
    using aggregate_entries [of targets allLots rep] by blast
  have lots: "list_all2 (\<lambda>t e. lot e = Number_of_string t) targets es"
    using list_all2_lot [OF pairs] .
  then show "\<exists>es. list_all2 (\<lambda>t e. lot e = Number_of_string t) targets es \<and>
            mset (entries rep) = mset es"
    using r mset_sort_by [of lot es] by auto
  have "list_all (\<lambda>y. \<exists>r. lot y = Fin r) es"
    unfolding list_all_iff
  proof
    fix e assume "e \<in> set es"
    then obtain t where "t \<in> set targets" "lot e = Number_of_string t"
      using list_all2_member [of "\<lambda>e t. lot e = Number_of_string t" es targets e] lots
      by (auto simp: list_all2_conv_all_nth)
    with a show "\<exists>r. lot e = Fin r" by (auto simp: list_all_iff)
  qed
  then show "sorted_wrt (\<lambda>a b. \<exists>x y. lot a = Fin x \<and> lot b = Fin y \<and> x \<le> y) (entries rep)"
    unfolding r by (rule sorted_sort_by)
next
  assume "main html = Some (Inr rep')"
  then obtain allLots where a: "aggregate TARGET_LOTS allLots = Inr rep'"
    by (auto simp: main_def split: option.splits)
  obtain lotMap es where
    pairs: "list_all2 (\<lambda>t e. build_entry lotMap t = Inr e) TARGET_LOTS es"
    and r: "entries rep' = sort_by lot es"
    using aggregate_entries [OF a TARGET_LOTS_numeric] by blast
  have lots: "map lot es = map Number_of_string TARGET_LOTS"
    using list_all2_map_lot [OF list_all2_lot [OF pairs]] .
  have "sorted_wrt (\<lambda>m n. \<not> comes_after (\<lambda>n. n) m n) (map lot es)"
    using TARGET_LOTS_sorted by (simp only: lots)
  then have "sorted_wrt (\<lambda>a b. \<not> comes_after lot a b) es"
    by (rule sorted_wrt_comes_after_map [THEN iffD2])
  then have "sort_by lot es = es"
    by (rule sort_by_sorted_id)
  then show "map lot (entries rep') =
        map Fin [5, 18, 20, 28, 45, 69, 75, 79, 86, 87, 105, 106, 117, 118, 140, 141, 144,
                 145, 146, 158]"
    using r lots TARGET_LOTS_numbers by simp
qed

theorem entries_one_per_lot_sorted_witness:
  "aggregate TARGET_LOTS [lot_example] = Inr report_example \<and>
   list_all (\<lambda>t. \<exists>x. Number_of_string t = Fin x) TARGET_LOTS \<and>
   main page_example = Some (Inr report_example) \<and>
   (\<exists>es. list_all2 (\<lambda>t e. lot e = Number_of_string t) TARGET_LOTS es \<and>
         mset (entries report_example) = mset es) \<and>
   sorted_wrt (\<lambda>a b. \<exists>x y. lot a = Fin x \<and> lot b = Fin y \<and> x \<le> y) (entries report_example) \<and>
   map lot (entries report_example) =
     map Fin [5, 18, 20, 28, 45, 69, 75, 79, 86, 87, 105, 106, 117, 118, 140, 141, 144,
              145, 146, 158]"
  using entries_one_per_lot_sorted [of TARGET_LOTS "[lot_example]" report_example page_example
      report_example] aggregate_example TARGET_LOTS_numeric main_example
  by blast

text \<open>
  Claim C3: a requested lot identifier that the deduplicated map does not have gets a
  placeholder entry, which is in the report: its \<open>current_bid\<close>, \<open>next_bid\<close>,
  \<open>shown_amount\<close>, \<open>status\<close>, \<open>estimate\<close> and \<open>bid_text\<close> are \<^verbatim>\<open>null\<close> and its
  \<open>has_no_bids\<close> is true.
\<close>

theorem absent_lot_placeholder:
  assumes "build_lotMap Map.empty allLots = Inr lotMap" and "lotMap lotNum = None"
    and "lotNum \<in> set targets" and "aggregate targets allLots = Inr rep"
  shows "build_entry lotMap lotNum = Inr (placeholder (Number_of_string lotNum)) \<and>
         (\<exists>e. e \<in> set (entries rep) \<and> lot e = Number_of_string lotNum \<and>
              current_bid e = None \<and> next_bid e = None \<and> shown_amount e = None \<and>
              status e = JNull \<and> estimate e = JNull \<and> bid_text e = JNull \<and>
              bid_count e = 0 \<and> has_no_bids e)"
proof -
  have ph: "build_entry lotMap lotNum = Inr (placeholder (Number_of_string lotNum))"
    using assms(2) by (rule build_entry_absent)
  obtain lotMap' es where m: "build_lotMap Map.empty allLots = Inr lotMap'"
    and b: "build_entries lotMap' targets [] = Inr es"
    and r: "entries rep = sort_by lot (ensure_present targets es)"
    using aggregate_Inr [OF assms(4)] by blast
  have same: "lotMap' = lotMap" using m assms(1) by simp
  from build_entries_Inr [OF b]
  have "list_all2 (\<lambda>t e. build_entry lotMap t = Inr e) targets es"
    using same by simp
  then obtain e where "e \<in> set es" "build_entry lotMap lotNum = Inr e"
    using list_all2_member assms(3) by force
  then have "placeholder (Number_of_string lotNum) \<in> set (entries rep)"
    using ph r set_ensure_present [of es targets] by (auto simp: set_sort_by)
  then show ?thesis
    using ph by (auto simp: placeholder_def)
qed

theorem absent_lot_placeholder_witness:
  "build_lotMap Map.empty [lot_example] = Inr [js ''5'' \<mapsto> lot_example] \<and>
   [js ''5'' \<mapsto> lot_example] (js ''18'') = None \<and>
   js ''18'' \<in> set [js ''18'', js ''5''] \<and>
   aggregate [js ''18'', js ''5''] [lot_example] = Inr report_small \<and>
   build_entry [js ''5'' \<mapsto> lot_example] (js ''18'') = Inr (placeholder (Number_of_string (js ''18''))) \<and>
   (\<exists>e. e \<in> set (entries report_small) \<and> lot e = Number_of_string (js ''18'') \<and>
        current_bid e = None \<and> next_bid e = None \<and> shown_amount e = None \<and>
        status e = JNull \<and> estimate e = JNull \<and> bid_text e = JNull \<and>
        bid_count e = 0 \<and> has_no_bids e)"
proof -
  have m: "build_lotMap Map.empty [lot_example] = Inr [js ''5'' \<mapsto> lot_example]"
    by (simp add: lot_example_def eval_defs)
  have absent: "[js ''5'' \<mapsto> lot_example] (js ''18'') = None"
    by (simp add: js_def)
  have requested: "js ''18'' \<in> set [js ''18'', js ''5'']"
    by simp
  show ?thesis
    using absent_lot_placeholder [of "[lot_example]" "[js ''5'' \<mapsto> lot_example]" "js ''18''"
        "[js ''18'', js ''5'']" report_small, OF m absent requested aggregate_small]
      m absent requested aggregate_small
    by blast
qed

text \<open>
  Claim C9: for the page that is exactly
  \<^verbatim>\<open>{"lot_number":"5","current_bid":"1400.00","bid_count_txt":" - 3 bids"}\<close> the scraper
  writes a report whose only entry for lot 5 has \<open>current_bid = 1400\<close>, \<open>bid_count = 3\<close>
  and \<open>has_no_bids = false\<close>; lot 5 is among the requested lots.
\<close>

theorem example_of_the_specification:
  "main page_example = Some (Inr report_example) \<and>
   filter (\<lambda>e. lot e = Fin 5) (entries report_example) = [entry_example] \<and>
   lot entry_example = Fin 5 \<and> current_bid entry_example = Some 1400 \<and>
   bid_count entry_example = 3 \<and> has_no_bids entry_example = False \<and>
   js ''5'' \<in> set TARGET_LOTS"
  using main_example
  by (simp add: report_example_def entry_example_def placeholder_def TARGET_LOTS_def)


section \<open>Malformed candidates\<close>

lemma indexOf_past_end: "indexOf html MARKER (length html + 1) = None"
  by (simp add: indexOf_def MARKER_def)

lemma extract_loop_acc_aux:
  assumes "extract_loop html idx acc = Some out"
  shows "\<forall>rs. extract_loop html idx (rs @ acc) = Some (rs @ out)"
proof (rule extract_loop.raw_induct
    [where P = "\<lambda>h i r y. \<forall>rs. extract_loop h i (rs @ r) = Some (rs @ y)", OF _ assms],
    goal_cases)
  case (1 loop h i r y)
  show ?case
  proof
    fix rs
    show "extract_loop h i (rs @ r) = Some (rs @ y)"
    proof (cases "indexOf h MARKER i")
      case None
      with 1(2) have "y = r" by simp
      then show ?thesis using extract_loop_break [OF None] by simp
    next
      case (Some k)
      show ?thesis
      proof (cases "charAt h (scan_left h k) = Some LBRACE")
        case False
        with 1(2) Some have "loop h (k + 12) r = Some y" by simp
        from 1(1) [OF this] show ?thesis
          using extract_loop_no_brace [OF Some False] by simp
      next
        case True
        show ?thesis
        proof (cases "match_forward (drop (scan_left h k) h) (scan_left h k) 0")
          case None
          with 1(2) Some True have "loop h (length h + 1) r = Some y" by simp
          from 1(1) [OF this] show ?thesis
            using extract_loop_unbalanced [OF Some True None] by simp
        next
          case e: (Some e)
          show ?thesis
          proof (cases "parse_candidate (slice h (scan_left h k) (e + 1))")
            case None
            with 1(2) Some True e have "loop h (e + 1) r = Some y" by simp
            from 1(1) [OF this] show ?thesis
              using extract_loop_skip [OF Some True e None] by simp
          next
            case obj: (Some obj)
            with 1(2) Some True e have "loop h (e + 1) (r @ [obj]) = Some y" by simp
            from 1(1) [OF this] show ?thesis
              using extract_loop_push [OF Some True e obj, of "rs @ r"] by simp
          qed
        qed
      qed
    qed
  qed
qed

lemma extract_loop_acc:
  "extract_loop html idx [] = Some out \<Longrightarrow> extract_loop html idx rs = Some (rs @ out)"
  using extract_loop_acc_aux [of html idx "[]" out] by simp

text \<open>
  Claim C5 as amended: a candidate whose braces balance and whose text fails the strict
  parse is discarded, and the scan resumes just after its closing brace: when the scan from
  there returns the objects \<open>objs\<close>, the extractor returns the results it had followed by
  \<open>objs\<close>, so that every object the resumed scan finds is kept. A candidate whose braces
  never balance takes the rest of the input with it: the extractor returns the results it
  had.
\<close>

theorem parse_failure_recovery:
  assumes "indexOf html MARKER idx = Some keyIdx"
    and "charAt html (scan_left html keyIdx) = Some LBRACE"
  shows "(match_forward (drop (scan_left html keyIdx) html) (scan_left html keyIdx) 0 = Some e \<and>
          parse_candidate (slice html (scan_left html keyIdx) (e + 1)) = None \<and>
          extract_loop html (e + 1) [] = Some objs \<longrightarrow>
            extract_loop html idx results = Some (results @ objs)) \<and>
         (match_forward (drop (scan_left html keyIdx) html) (scan_left html keyIdx) 0 = None \<longrightarrow>
            extract_loop html idx results = Some results)"
proof (intro conjI impI)
  assume a: "match_forward (drop (scan_left html keyIdx) html) (scan_left html keyIdx) 0 = Some e \<and>
          parse_candidate (slice html (scan_left html keyIdx) (e + 1)) = None \<and>
          extract_loop html (e + 1) [] = Some objs"
  then have "extract_loop html idx results = extract_loop html (e + 1) results"
    using extract_loop_skip [OF assms] by blast
  then show "extract_loop html idx results = Some (results @ objs)"
    using a extract_loop_acc by simp
next
  assume "match_forward (drop (scan_left html keyIdx) html) (scan_left html keyIdx) 0 = None"
  then have "extract_loop html idx results = extract_loop html (length html + 1) results"
    using extract_loop_unbalanced [OF assms] by blast
  then show "extract_loop html idx results = Some results"
    using extract_loop_break [OF indexOf_past_end] by simp
qed

lemma two_JSON: "JSON_parse object_two = Some lot_two"
  by code_simp

lemma two_marker: "indexOf object_two MARKER 0 = Some 1"
  by code_simp

lemma unbalanced_index: "indexOf (candidate_unbalanced @ object_two) MARKER 0 = Some 1"
  by code_simp

lemma unbalanced_scan: "scan_left (candidate_unbalanced @ object_two) 1 = 0"
  by code_simp

lemma unbalanced_brace: "charAt (candidate_unbalanced @ object_two) 0 = Some LBRACE"
  by code_simp

lemma unbalanced_match:
  "match_forward (drop 0 (candidate_unbalanced @ object_two)) 0 0 = None"
  by code_simp

lemma unbalanced_alone: "match_forward candidate_unbalanced 0 0 = None"
  by code_simp

text \<open>
  Claim C5 says that a malformed candidate, with unbalanced braces or text that is no JSON,
  never costs a valid object that follows it. On the page
  \<^verbatim>\<open>{"lot_number":"1" {"lot_number":"2"}\<close> the first candidate's braces never balance, the
  second object is valid JSON with the marker, and the extractor returns nothing.
\<close>

theorem unbalanced_candidate_loses_later_object:
  "match_forward candidate_unbalanced 0 0 = None \<and>
   JSON_parse object_two = Some lot_two \<and>
   indexOf object_two MARKER 0 = Some 1 \<and>
   extractLotObjects (candidate_unbalanced @ object_two) = Some [] \<and>
   lot_two \<notin> set []"
proof -
  have "extract_loop (candidate_unbalanced @ object_two) 0 [] =
        extract_loop (candidate_unbalanced @ object_two)
          (length (candidate_unbalanced @ object_two) + 1) []"
    using extract_loop_unbalanced [of "candidate_unbalanced @ object_two" 0 1 "[]",
        unfolded unbalanced_scan, OF unbalanced_index unbalanced_brace unbalanced_match] .
  also have "\<dots> = Some []"
    by (rule extract_loop_break [OF indexOf_past_end])
  finally show ?thesis
    using unbalanced_alone two_JSON two_marker by (simp add: extractLotObjects_def)
qed

lemma invalid_index: "indexOf (candidate_invalid @ object_two) MARKER 0 = Some 1"
  by code_simp

lemma invalid_scan: "scan_left (candidate_invalid @ object_two) 1 = 0"
  by code_simp

lemma invalid_brace: "charAt (candidate_invalid @ object_two) 0 = Some LBRACE"
  by code_simp

lemma invalid_match: "match_forward (drop 0 (candidate_invalid @ object_two)) 0 0 = Some 15"
  by code_simp

lemma invalid_cleanup:
  "strip_trailing_commas (strip_separators (slice (candidate_invalid @ object_two) 0 (15 + 1))) =
   text_invalid"
  by (simp add: slice_def candidate_invalid_def object_two_def text_invalid_def
      strip_separators_def js_def char_defs is_space_def)

lemma invalid_JSON: "JSON_parse text_invalid = None"
  by code_simp

lemma invalid_parse:
  "parse_candidate (slice (candidate_invalid @ object_two) 0 (15 + 1)) = None"
  by (simp only: parse_candidate_def invalid_cleanup invalid_JSON)

lemma resumed_index: "indexOf (candidate_invalid @ object_two) MARKER (15 + 1) = Some 18"
  by code_simp

lemma resumed_scan: "scan_left (candidate_invalid @ object_two) 18 = 17"
  by code_simp

lemma resumed_brace: "charAt (candidate_invalid @ object_two) 17 = Some LBRACE"
  by code_simp

lemma resumed_match: "match_forward (drop 17 (candidate_invalid @ object_two)) 17 0 = Some 34"
  by code_simp

lemma resumed_cleanup:
  "strip_trailing_commas (strip_separators (slice (candidate_invalid @ object_two) 17 (34 + 1))) =
   object_two"
  by (simp add: slice_def candidate_invalid_def object_two_def
      strip_separators_def js_def char_defs is_space_def)

lemma resumed_parse:
  "parse_candidate (slice (candidate_invalid @ object_two) 17 (34 + 1)) = Some lot_two"
  by (simp only: parse_candidate_def resumed_cleanup two_JSON)

lemma resumed_end: "indexOf (candidate_invalid @ object_two) MARKER (34 + 1) = None"
  by code_simp

lemma resumed_result: "extract_loop (candidate_invalid @ object_two) (15 + 1) [] = Some [lot_two]"
proof -
  have "extract_loop (candidate_invalid @ object_two) (15 + 1) [] =
        extract_loop (candidate_invalid @ object_two) (34 + 1) ([] @ [lot_two])"
    using extract_loop_push [of "candidate_invalid @ object_two" "15 + 1" 18 34 lot_two "[]",
        unfolded resumed_scan, OF resumed_index resumed_brace resumed_match resumed_parse] .
  also have "\<dots> = Some [lot_two]"
    using extract_loop_break [OF resumed_end] by simp
  finally show ?thesis .
qed

theorem parse_failure_recovery_witness:
  "indexOf (candidate_invalid @ object_two) MARKER 0 = Some 1 \<and>
   charAt (candidate_invalid @ object_two) 0 = Some LBRACE \<and>
   match_forward (drop 0 (candidate_invalid @ object_two)) 0 0 = Some 15 \<and>
   parse_candidate (slice (candidate_invalid @ object_two) 0 (15 + 1)) = None \<and>
   extract_loop (candidate_invalid @ object_two) (15 + 1) [] = Some [lot_two] \<and>
   extractLotObjects (candidate_invalid @ object_two) = Some [lot_two] \<and>
   indexOf (candidate_unbalanced @ object_two) MARKER 0 = Some 1 \<and>
   charAt (candidate_unbalanced @ object_two) 0 = Some LBRACE \<and>
   match_forward (drop 0 (candidate_unbalanced @ object_two)) 0 0 = None \<and>
   extract_loop (candidate_unbalanced @ object_two) 0 [lot_example] = Some [lot_example]"
proof -
  have "extract_loop (candidate_invalid @ object_two) 0 [] = Some ([] @ [lot_two])"
    using parse_failure_recovery [of "candidate_invalid @ object_two" 0 1 15 "[lot_two]" "[]",
        unfolded invalid_scan, OF invalid_index invalid_brace]
      invalid_match invalid_parse resumed_result
    by blast
  moreover have "extract_loop (candidate_unbalanced @ object_two) 0 [lot_example] =
      Some [lot_example]"
    using parse_failure_recovery [of "candidate_unbalanced @ object_two" 0 1 _ _ "[lot_example]",
        unfolded unbalanced_scan, OF unbalanced_index unbalanced_brace]
      unbalanced_match
    by blast
  ultimately show ?thesis
    using invalid_index invalid_brace invalid_match invalid_parse resumed_result
      unbalanced_index unbalanced_brace unbalanced_match
    by (simp add: extractLotObjects_def)
qed


end
